theory Spec2Isabelle
  imports Main "HOL-Library.AList" "HOL-Library.Char_ord" "HOL-Library.List_Lexorder"
begin

section \<open>Strings\<close>

text \<open>
  JavaScript strings are modelled as \<^typ>\<open>string\<close>, one \<^typ>\<open>char\<close> per code unit:
  the strings of the model are those of the code points U+0000 to U+00FF.

  White space, for \<open>String.prototype.trim\<close> and for the \<open>\s\<close> of the validation
  library's \<open>trim\<close> alike, is in this range the space, the characters U+0009 to
  U+000D and the no-break space U+00A0.
\<close>

definition isWhitespace :: "char \<Rightarrow> bool" where
  "isWhitespace c =
     (c \<in> set [CHR '' '', CHR 0x09, CHR 0x0A, CHR 0x0B, CHR 0x0C, CHR 0x0D, CHR 0xA0])"

definition trim :: "string \<Rightarrow> string" where
  "trim s = rev (dropWhile isWhitespace (rev (dropWhile isWhitespace s)))"

text \<open>
  \<open>String.prototype.toUpperCase\<close>. The upper case of a character of the range may
  lie outside of it, or be two characters, so the result is given as the list of its
  code units: \<open>a\<close>..\<open>z\<close> and the letters U+00E0 to U+00FE (but not the division sign
  U+00F7) move down by 32, the micro sign U+00B5 becomes U+039C, the sharp s U+00DF
  becomes \<open>SS\<close>, U+00FF becomes U+0178, and every other character is its own upper
  case.
\<close>

definition toUpperCase_units :: "char \<Rightarrow> nat list" where
  "toUpperCase_units c =
     (let n = (of_char c :: nat) in
      if 97 \<le> n \<and> n \<le> 122 then [n - 32]
      else if n = 181 then [924]
      else if n = 223 then [83, 83]
      else if 224 \<le> n \<and> n \<le> 254 \<and> n \<noteq> 247 then [n - 32]
      else if n = 255 then [376]
      else [n])"

definition toUpperCase :: "string \<Rightarrow> nat list" where
  "toUpperCase s = concat (map toUpperCase_units s)"

definition isLowerHex :: "char \<Rightarrow> bool" where
  "isLowerHex c = (c \<in> set ''0123456789abcdef'')"

definition isUpperHex :: "char \<Rightarrow> bool" where
  "isUpperHex c = (c \<in> set ''0123456789ABCDEF'')"

text \<open>
  The textual form of what \<open>uuidv4()\<close> returns: 36 characters, a dash at the positions
  8, 13, 18 and 23 and a lowercase hexadecimal digit everywhere else. The generator itself
  is a library; its result is an input of the model.
\<close>

definition uuid_shape :: "string \<Rightarrow> bool" where
  "uuid_shape u =
     (length u = 36 \<and>
      list_all (\<lambda>i. if i \<in> {8, 13, 18, 23} then u ! i = CHR ''-'' else isLowerHex (u ! i))
        [0..<36])"

text \<open>
  \<open>uuidv4().replace(/-/g, "").slice(0, 8).toUpperCase()\<close>. The generator returns
  hexadecimal digits and dashes, whose upper case is within the range of the model's
  strings; the code units of the result are read back as characters.
\<close>

definition inviteCode_of :: "string \<Rightarrow> string" where
  "inviteCode_of uuid =
     map char_of (toUpperCase (take 8 (filter (\<lambda>c. c \<noteq> CHR ''-'') uuid)))"

section \<open>Documents of the store\<close>

record identity =
  userId :: string
  email :: string
  displayName :: string

record member =
  m_userId :: string
  m_email :: string
  m_displayName :: string
  m_role :: string
  m_joinedAt :: string

record group =
  g_groupId :: string
  g_name :: string
  g_description :: string
  g_inviteCode :: string
  g_createdBy :: string
  g_members :: "member list"
  g_createdAt :: string
  g_updatedAt :: string

text \<open>Of a user document the group routes touch the group id list and the update stamp.\<close>

record user_doc =
  u_groups :: "string list"
  u_updatedAt :: string

record actor =
  a_userId :: string
  a_displayName :: string

record message =
  msg_messageId :: string
  msg_groupId :: string
  msg_senderId :: string
  msg_senderEmail :: string
  msg_senderName :: string
  msg_text :: string
  msg_createdAt :: string
  msg_updatedAt :: string

record note_doc =
  n_groupId :: string
  n_content :: string
  n_lastEditedBy :: actor
  n_lastEditedAt :: string
  n_updatedAt :: string

record history_entry =
  h_content :: string
  h_savedBy :: actor
  h_savedAt :: string
  h_archivedAt :: string

text \<open>
  A scalar value of a request body, JSON or form encoded; \<open>Undefined\<close> is a field the
  body does not have. Of the numbers the model has the integers.
\<close>

datatype body_value = Undefined | JNull | JBool bool | JNumber int | JString string

record task =
  t_taskId :: string
  t_groupId :: string
  t_title :: string
  t_description :: string
  t_assignee :: "actor option"
  t_dueDate :: "string option"
  t_completed :: body_value
  t_completedAt :: "string option"
  t_completedBy :: "actor option"
  t_createdBy :: actor
  t_createdAt :: string
  t_updatedAt :: string

text \<open>
  The collections. A document addressed by its id only is a map entry; the message
  collection is an association list, since the history query enumerates it; the
  \<open>noteHistory\<close> sub-collection of a note is the list of its entries in the order they
  were added.
\<close>

record db =
  db_groups :: "string \<rightharpoonup> group"
  db_users :: "string \<rightharpoonup> user_doc"
  db_messages :: "(string \<times> message) list"
  db_notes :: "string \<rightharpoonup> note_doc"
  db_noteHistory :: "string \<Rightarrow> history_entry list"
  db_tasks :: "string \<rightharpoonup> task"

text \<open>\<open>FieldValue.arrayUnion\<close> and \<open>FieldValue.arrayRemove\<close> on an array field.\<close>

definition arrayUnion :: "'a \<Rightarrow> 'a list \<Rightarrow> 'a list" where
  "arrayUnion x xs = (if x \<in> set xs then xs else xs @ [x])"

definition arrayRemove :: "'a \<Rightarrow> 'a list \<Rightarrow> 'a list" where
  "arrayRemove x xs = filter (\<lambda>y. y \<noteq> x) xs"

text \<open>\<open>group.members.some((m) => m.userId === userId)\<close>\<close>

definition isMember :: "group \<Rightarrow> string \<Rightarrow> bool" where
  "isMember g uid = list_ex (\<lambda>m. m_userId m = uid) (g_members g)"

section \<open>Group routes\<close>

text \<open>
  POST /api/groups. The request body's fields are \<open>None\<close> when absent. The fresh
  document id, the UUID and the clock reading are inputs. A write to a user document
  that does not exist throws, which the handler answers with 500.
\<close>

definition create_group ::
  "db \<Rightarrow> identity \<Rightarrow> string option \<Rightarrow> string option \<Rightarrow> string \<Rightarrow> string \<Rightarrow> string
     \<Rightarrow> nat \<times> group option \<times> db" where
  "create_group d user name description newId uuid now =
     (case name of
        None \<Rightarrow> (400, None, d)
      | Some nm \<Rightarrow>
          if trim nm = [] \<or> length (trim nm) > 80 then (400, None, d)
          else if (case description of None \<Rightarrow> False | Some ds \<Rightarrow> length ds > 500)
          then (400, None, d)
          else
            let groupData = \<lparr>
                  g_groupId = newId,
                  g_name = trim (trim nm),
                  g_description = trim (case description of None \<Rightarrow> [] | Some ds \<Rightarrow> ds),
                  g_inviteCode = inviteCode_of uuid,
                  g_createdBy = userId user,
                  g_members = [\<lparr> m_userId = userId user, m_email = email user,
                                 m_displayName = displayName user, m_role = ''admin'',
                                 m_joinedAt = now \<rparr>],
                  g_createdAt = now,
                  g_updatedAt = now \<rparr>;
                d1 = d\<lparr> db_groups := (db_groups d)(newId \<mapsto> groupData) \<rparr>
            in (case db_users d1 (userId user) of
                  None \<Rightarrow> (500, None, d1)
                | Some u \<Rightarrow>
                    (201, Some groupData,
                     d1\<lparr> db_users := (db_users d1)(userId user \<mapsto>
                            u\<lparr> u_groups := arrayUnion newId (u_groups u),
                               u_updatedAt := now \<rparr>) \<rparr>)))"

text \<open>
  POST /api/groups/:groupId/join. The validation chain trims the body's invite code and
  rejects an empty one before the handler runs; the handler reads the trimmed value.
\<close>

definition join_group ::
  "db \<Rightarrow> identity \<Rightarrow> string \<Rightarrow> string option \<Rightarrow> string \<Rightarrow> nat \<times> db" where
  "join_group d user groupId inviteCodeField now =
     (case inviteCodeField of
        None \<Rightarrow> (400, d)
      | Some raw \<Rightarrow>
          let inviteCode = trim raw in
          if inviteCode = [] then (400, d)
          else
            (case db_groups d groupId of
               None \<Rightarrow> (404, d)
             | Some grp \<Rightarrow>
                 if toUpperCase (g_inviteCode grp) \<noteq> toUpperCase inviteCode then (400, d)
                 else if isMember grp (userId user) then (409, d)
                 else
                   let newMember = \<lparr> m_userId = userId user, m_email = email user,
                         m_displayName = displayName user, m_role = ''member'',
                         m_joinedAt = now \<rparr>;
                       d1 = d\<lparr> db_groups := (db_groups d)(groupId \<mapsto>
                              grp\<lparr> g_members := arrayUnion newMember (g_members grp),
                                     g_updatedAt := now \<rparr>) \<rparr>
                   in (case db_users d1 (userId user) of
                         None \<Rightarrow> (500, d1)
                       | Some u \<Rightarrow>
                           (200, d1\<lparr> db_users := (db_users d1)(userId user \<mapsto>
                                    u\<lparr> u_groups := arrayUnion groupId (u_groups u),
                                       u_updatedAt := now \<rparr>) \<rparr>))))"

text \<open>
  POST /api/groups/:groupId/leave. \<open>members.find\<close> gives the caller's first entry,
  \<open>members.filter\<close> the entries of everybody else; \<open>remainingMembers[0].role = "admin"\<close>
  rewrites the head of that list.
\<close>

definition promote :: "member \<Rightarrow> member list \<Rightarrow> member list" where
  "promote memberEntry remainingMembers =
     (let hasOtherAdmin = list_ex (\<lambda>m. m_role m = ''admin'') remainingMembers in
      if m_role memberEntry = ''admin'' \<and> \<not> hasOtherAdmin
      then (case remainingMembers of [] \<Rightarrow> [] | r # rs \<Rightarrow> r\<lparr> m_role := ''admin'' \<rparr> # rs)
      else remainingMembers)"

definition leave_group :: "db \<Rightarrow> identity \<Rightarrow> string \<Rightarrow> string \<Rightarrow> nat \<times> db" where
  "leave_group d user groupId now =
     (case db_groups d groupId of
        None \<Rightarrow> (404, d)
      | Some grp \<Rightarrow>
          (case find (\<lambda>m. m_userId m = userId user) (g_members grp) of
             None \<Rightarrow> (400, d)
           | Some memberEntry \<Rightarrow>
               let remainingMembers =
                     filter (\<lambda>m. m_userId m \<noteq> userId user) (g_members grp);
                   d1 = (if length remainingMembers = 0
                         then d\<lparr> db_groups := (db_groups d)(groupId := None) \<rparr>
                         else d\<lparr> db_groups := (db_groups d)(groupId \<mapsto>
                                grp\<lparr> g_members :=
                                         promote memberEntry remainingMembers,
                                       g_updatedAt := now \<rparr>) \<rparr>)
               in (case db_users d1 (userId user) of
                     None \<Rightarrow> (500, d1)
                   | Some u \<Rightarrow>
                       (200, d1\<lparr> db_users := (db_users d1)(userId user \<mapsto>
                                u\<lparr> u_groups := arrayRemove groupId (u_groups u),
                                   u_updatedAt := now \<rparr>) \<rparr>))))"

text \<open>
  The shape the group routes keep a group document in: one entry per user and,
  among the entries, an admin.
\<close>

definition isAdmin :: "member \<Rightarrow> bool" where
  "isAdmin m = (m_role m = ''admin'')"

definition wellFormed :: "group \<Rightarrow> bool" where
  "wellFormed g = (distinct (map m_userId (g_members g)) \<and> list_ex isAdmin (g_members g))"

section \<open>Membership gate of the chat, notes and task routes\<close>

text \<open>\<open>requireGroupMembership\<close>: the thrown error's status on the left.\<close>

definition requireGroupMembership :: "db \<Rightarrow> string \<Rightarrow> string \<Rightarrow> nat + group" where
  "requireGroupMembership d groupId uid =
     (case db_groups d groupId of
        None \<Rightarrow> Inl 404
      | Some grp \<Rightarrow> if isMember grp uid then Inr grp else Inl 403)"

section \<open>Events of the real-time layer\<close>

record user_info =
  ui_userId :: string
  ui_displayName :: string
  ui_socketId :: string

datatype target =
    ToSocket string
  | ToRoom string
  | ToRoomExcept string string

datatype event =
    ErrorEvent string
  | NewMessage message
  | MessageDeleted string string
  | NoteUpdated string actor string
  | UserJoined string string
  | UserLeft "string option" "string option"
  | OnlineUsers string "user_info list"
  | TypingEvent string string string
  | StopTypingEvent string string

type_synonym emission = "target \<times> event"

section \<open>Chat routes\<close>

text \<open>
  The \<open>limit\<close> query parameter arrives as text. \<open>isInt({ min: 1, max: 100 })\<close>
  accepts an optional sign followed by one or more decimal digits whose numeric value
  lies in the range; \<open>parseInt(_, 10)\<close> of such a text is that value.
\<close>

definition isDigit :: "char \<Rightarrow> bool" where
  "isDigit c = (c \<in> set ''0123456789'')"

definition digitsValue :: "string \<Rightarrow> nat" where
  "digitsValue s = foldl (\<lambda>n c. 10 * n + (of_char c - 48)) 0 s"

definition isIntText :: "string \<Rightarrow> bool" where
  "isIntText s =
     (case s of
        [] \<Rightarrow> False
      | c # cs \<Rightarrow>
          if c = CHR ''+'' \<or> c = CHR ''-'' then cs \<noteq> [] \<and> list_all isDigit cs
          else list_all isDigit s)"

definition parseInt :: "string \<Rightarrow> int" where
  "parseInt s =
     (case s of
        [] \<Rightarrow> 0
      | c # cs \<Rightarrow>
          if c = CHR ''-'' then - int (digitsValue cs)
          else if c = CHR ''+'' then int (digitsValue cs)
          else int (digitsValue s))"

definition isInt :: "int \<Rightarrow> int \<Rightarrow> string \<Rightarrow> bool" where
  "isInt lo hi s = (isIntText s \<and> lo \<le> parseInt s \<and> parseInt s \<le> hi)"

text \<open>\<open>parseInt(req.query.limit, 10) || 50\<close>: an absent parameter parses to NaN.\<close>

definition limit_of :: "string option \<Rightarrow> int" where
  "limit_of q =
     (case q of
        None \<Rightarrow> 50
      | Some s \<Rightarrow> if parseInt s = 0 then 50 else parseInt s)"

text \<open>
  The query of the history route against the message collection: the documents of the
  group, those created before the cursor when one is given (an empty cursor is falsy and
  adds no filter), in descending order of \<open>createdAt\<close>, cut to the limit. Timestamps
  are ISO strings and compare as strings.
\<close>

definition messages_query :: "db \<Rightarrow> string \<Rightarrow> string option \<Rightarrow> nat \<Rightarrow> message list" where
  "messages_query d groupId before limit =
     take limit (rev (sort_key msg_createdAt
       (filter (\<lambda>m. msg_groupId m = groupId \<and>
                  (case before of
                     None \<Rightarrow> True
                   | Some b \<Rightarrow> b = [] \<or> msg_createdAt m < b))
          (map snd (db_messages d)))))"

text \<open>GET /api/chat/:groupId/messages\<close>

definition get_messages ::
  "db \<Rightarrow> identity \<Rightarrow> string \<Rightarrow> string option \<Rightarrow> string option \<Rightarrow> nat \<times> message list" where
  "get_messages d user groupId limitParam before =
     (if (case limitParam of None \<Rightarrow> False | Some s \<Rightarrow> \<not> isInt 1 100 s) then (400, [])
      else
        let limit = limit_of limitParam in
        (case requireGroupMembership d groupId (userId user) of
           Inl st \<Rightarrow> (st, [])
         | Inr _ \<Rightarrow>
             let messages = messages_query d groupId before (nat limit)
             in (200, rev messages)))"

text \<open>
  POST /api/chat/:groupId/messages. The validation chain trims the text and requires
  it to be non-empty and at most 2000 characters long. The id of the new document is an
  input.
\<close>

definition post_message ::
  "db \<Rightarrow> identity \<Rightarrow> string \<Rightarrow> string option \<Rightarrow> string \<Rightarrow> string
     \<Rightarrow> nat \<times> db \<times> emission list" where
  "post_message d user groupId textField newId now =
     (case textField of
        None \<Rightarrow> (400, d, [])
      | Some raw \<Rightarrow>
          let text = trim raw in
          if text = [] \<or> length text > 2000 then (400, d, [])
          else
            (case requireGroupMembership d groupId (userId user) of
               Inl st \<Rightarrow> (st, d, [])
             | Inr _ \<Rightarrow>
                 let message = \<lparr> msg_messageId = newId, msg_groupId = groupId,
                       msg_senderId = userId user, msg_senderEmail = email user,
                       msg_senderName = displayName user, msg_text = trim text,
                       msg_createdAt = now, msg_updatedAt = now \<rparr>
                 in (201,
                     d\<lparr> db_messages := AList.update newId message (db_messages d) \<rparr>,
                     [(ToRoom groupId, NewMessage message)])))"

text \<open>DELETE /api/chat/:groupId/messages/:messageId\<close>

definition delete_message ::
  "db \<Rightarrow> identity \<Rightarrow> string \<Rightarrow> string \<Rightarrow> nat \<times> db \<times> emission list" where
  "delete_message d user groupId messageId =
     (case requireGroupMembership d groupId (userId user) of
        Inl st \<Rightarrow> (st, d, [])
      | Inr _ \<Rightarrow>
          (case map_of (db_messages d) messageId of
             None \<Rightarrow> (404, d, [])
           | Some msgData \<Rightarrow>
               if msg_senderId msgData \<noteq> userId user then (403, d, [])
               else if msg_groupId msgData \<noteq> groupId then (400, d, [])
               else (200,
                     d\<lparr> db_messages := AList.delete messageId (db_messages d) \<rparr>,
                     [(ToRoom groupId, MessageDeleted messageId groupId)])))"

section \<open>Notes routes\<close>

text \<open>
  PUT /api/notes/:groupId. The two clock readings, the archive stamp and the stamp of
  the new version, are inputs.
\<close>

definition save_note ::
  "db \<Rightarrow> identity \<Rightarrow> string \<Rightarrow> string option \<Rightarrow> string \<Rightarrow> string
     \<Rightarrow> nat \<times> db \<times> emission list" where
  "save_note d user groupId contentField archivedAt now =
     (case contentField of
        None \<Rightarrow> (400, d, [])
      | Some content \<Rightarrow>
          (case requireGroupMembership d groupId (userId user) of
             Inl st \<Rightarrow> (st, d, [])
           | Inr _ \<Rightarrow>
               let d1 = (case db_notes d groupId of
                           None \<Rightarrow> d
                         | Some prevData \<Rightarrow>
                             d\<lparr> db_noteHistory := (db_noteHistory d)(groupId :=
                                  db_noteHistory d groupId @
                                    [\<lparr> h_content = n_content prevData,
                                       h_savedBy = n_lastEditedBy prevData,
                                       h_savedAt = n_lastEditedAt prevData,
                                       h_archivedAt = archivedAt \<rparr>]) \<rparr>);
                   editor = \<lparr> a_userId = userId user, a_displayName = displayName user \<rparr>;
                   noteData = \<lparr> n_groupId = groupId, n_content = content,
                         n_lastEditedBy = editor, n_lastEditedAt = now, n_updatedAt = now \<rparr>
               in (200,
                   d1\<lparr> db_notes := (db_notes d1)(groupId \<mapsto> noteData) \<rparr>,
                   [(ToRoom groupId, NoteUpdated groupId editor now)])))"

text \<open>GET /api/notes/:groupId/history\<close>

definition get_note_history ::
  "db \<Rightarrow> identity \<Rightarrow> string \<Rightarrow> nat \<times> history_entry list" where
  "get_note_history d user groupId =
     (case requireGroupMembership d groupId (userId user) of
        Inl st \<Rightarrow> (st, [])
      | Inr _ \<Rightarrow> (200, take 10 (rev (sort_key h_archivedAt (db_noteHistory d groupId)))))"

text \<open>
  A run of save requests against one group's note, each on the store the previous one
  left: the final store when every request is answered with 200.
\<close>

record save_request =
  sr_user :: identity
  sr_content :: string
  sr_archivedAt :: string
  sr_now :: string

fun save_notes :: "db \<Rightarrow> string \<Rightarrow> save_request list \<Rightarrow> db option" where
  "save_notes d groupId [] = Some d"
| "save_notes d groupId (r # rs) =
     (case save_note d (sr_user r) groupId (Some (sr_content r)) (sr_archivedAt r) (sr_now r) of
        (st, d', _) \<Rightarrow> if st = 200 then save_notes d' groupId rs else None)"


section \<open>Task routes\<close>

text \<open>
  The body of PUT /api/tasks/:groupId/:taskId. A field is \<open>None\<close> when the request
  leaves it out; \<open>assignee\<close> may also be sent as \<open>null\<close>, which is \<open>Some None\<close>.
\<close>

record task_update =
  tu_title :: "string option"
  tu_description :: "string option"
  tu_assignee :: "actor option option"
  tu_dueDate :: "string option"

text \<open>
  The validation chain of the update route. The ISO 8601 test of the validation
  library is a parameter.
\<close>

definition update_valid :: "(string \<Rightarrow> bool) \<Rightarrow> task_update \<Rightarrow> bool" where
  "update_valid isISO8601 b =
     ((case tu_title b of None \<Rightarrow> True | Some t \<Rightarrow> trim t \<noteq> [] \<and> length (trim t) \<le> 200)
      \<and> (case tu_description b of None \<Rightarrow> True | Some ds \<Rightarrow> length ds \<le> 1000)
      \<and> (case tu_dueDate b of None \<Rightarrow> True | Some dd \<Rightarrow> isISO8601 dd))"

text \<open>The partial update object, applied to the stored task.\<close>

definition apply_updates :: "task_update \<Rightarrow> string \<Rightarrow> task \<Rightarrow> task" where
  "apply_updates b now t =
     (let t1 = t\<lparr> t_updatedAt := now \<rparr>;
          t2 = (case tu_title b of None \<Rightarrow> t1 | Some x \<Rightarrow> t1\<lparr> t_title := trim (trim x) \<rparr>);
          t3 = (case tu_description b of None \<Rightarrow> t2 | Some x \<Rightarrow> t2\<lparr> t_description := trim x \<rparr>);
          t4 = (case tu_assignee b of None \<Rightarrow> t3 | Some x \<Rightarrow> t3\<lparr> t_assignee := x \<rparr>);
          t5 = (case tu_dueDate b of None \<Rightarrow> t4 | Some x \<Rightarrow> t4\<lparr> t_dueDate := Some x \<rparr>)
      in t5)"

text \<open>PUT /api/tasks/:groupId/:taskId\<close>

definition update_task ::
  "(string \<Rightarrow> bool) \<Rightarrow> db \<Rightarrow> identity \<Rightarrow> string \<Rightarrow> string \<Rightarrow> task_update \<Rightarrow> string
     \<Rightarrow> nat \<times> db" where
  "update_task isISO8601 d user groupId taskId b now =
     (if \<not> update_valid isISO8601 b then (400, d)
      else
        (case requireGroupMembership d groupId (userId user) of
           Inl st \<Rightarrow> (st, d)
         | Inr _ \<Rightarrow>
             (case db_tasks d taskId of
                None \<Rightarrow> (404, d)
              | Some t \<Rightarrow>
                  if t_groupId t \<noteq> groupId then (400, d)
                  else (200, d\<lparr> db_tasks := (db_tasks d)(taskId \<mapsto> apply_updates b now t) \<rparr>))))"

text \<open>DELETE /api/tasks/:groupId/:taskId\<close>

definition delete_task :: "db \<Rightarrow> identity \<Rightarrow> string \<Rightarrow> string \<Rightarrow> nat \<times> db" where
  "delete_task d user groupId taskId =
     (case requireGroupMembership d groupId (userId user) of
        Inl st \<Rightarrow> (st, d)
      | Inr _ \<Rightarrow>
          (case db_tasks d taskId of
             None \<Rightarrow> (404, d)
           | Some t \<Rightarrow>
               if t_groupId t \<noteq> groupId then (400, d)
               else (200, d\<lparr> db_tasks := (db_tasks d)(taskId := None) \<rparr>)))"

text \<open>
  \<open>body("completed").isBoolean()\<close> is not strict: the value is turned into text,
  and the text has to be one of \<open>true\<close>, \<open>false\<close>, \<open>1\<close> and \<open>0\<close>. The text of a
  number is \<open>0\<close> or \<open>1\<close> for these two numbers only (a number with a fraction is
  refused like every other number); an absent field and \<open>null\<close> give the empty text.
  The chain has no sanitizer, so the handler reads the value as it was sent.
\<close>

definition isBoolean :: "body_value \<Rightarrow> bool" where
  "isBoolean v =
     (case v of
        Undefined \<Rightarrow> False
      | JNull \<Rightarrow> False
      | JBool b \<Rightarrow> True
      | JNumber n \<Rightarrow> n = 0 \<or> n = 1
      | JString s \<Rightarrow> s \<in> set [''true'', ''false'', ''1'', ''0''])"

text \<open>What the conditional operator \<open>completed ? _ : _\<close> tests.\<close>

definition truthy :: "body_value \<Rightarrow> bool" where
  "truthy v =
     (case v of
        Undefined \<Rightarrow> False
      | JNull \<Rightarrow> False
      | JBool b \<Rightarrow> b
      | JNumber n \<Rightarrow> n \<noteq> 0
      | JString s \<Rightarrow> s \<noteq> [])"

text \<open>PATCH /api/tasks/:groupId/:taskId/complete\<close>

definition complete_task ::
  "db \<Rightarrow> identity \<Rightarrow> string \<Rightarrow> string \<Rightarrow> body_value \<Rightarrow> string \<Rightarrow> nat \<times> db" where
  "complete_task d user groupId taskId completed now =
     (if \<not> isBoolean completed then (400, d)
      else
        (case requireGroupMembership d groupId (userId user) of
           Inl st \<Rightarrow> (st, d)
         | Inr _ \<Rightarrow>
             (case db_tasks d taskId of
                None \<Rightarrow> (404, d)
              | Some t \<Rightarrow>
                  if t_groupId t \<noteq> groupId then (400, d)
                  else
                    (200, d\<lparr> db_tasks := (db_tasks d)(taskId \<mapsto>
                            t\<lparr> t_completed := completed,
                               t_completedAt := (if truthy completed then Some now else None),
                               t_completedBy :=
                                 (if truthy completed
                                  then Some \<lparr> a_userId = userId user,
                                              a_displayName = displayName user \<rparr>
                                  else None),
                               t_updatedAt := now \<rparr>) \<rparr>))))"

section \<open>Real-time layer\<close>

text \<open>
  \<open>onlineUsers\<close> is a Map from group id to a Map from user id to the user's entry. A
  JavaScript Map keeps its keys in insertion order and \<open>set\<close> on a present key
  replaces the value in place, which is what \<open>AList.update\<close> does on an association
  list.
\<close>

type_synonym roster = "(string \<times> (string \<times> user_info) list) list"

definition addOnlineUser :: "roster \<Rightarrow> string \<Rightarrow> user_info \<Rightarrow> roster" where
  "addOnlineUser onlineUsers groupId userInfo =
     (let inner = (case map_of onlineUsers groupId of None \<Rightarrow> [] | Some m \<Rightarrow> m)
      in AList.update groupId (AList.update (ui_userId userInfo) userInfo inner) onlineUsers)"

text \<open>
  The user id is \<open>None\<close> for \<open>socket.user?.userId\<close> of an unauthenticated socket; no
  entry has such a key, so the inner delete removes nothing then.
\<close>

definition removeOnlineUser :: "roster \<Rightarrow> string \<Rightarrow> string option \<Rightarrow> roster" where
  "removeOnlineUser onlineUsers groupId uid =
     (case map_of onlineUsers groupId of
        None \<Rightarrow> onlineUsers
      | Some m \<Rightarrow>
          let m' = (case uid of None \<Rightarrow> m | Some u \<Rightarrow> AList.delete u m)
          in if length m' = 0 then AList.delete groupId onlineUsers
             else AList.update groupId m' onlineUsers)"

definition getOnlineUsers :: "roster \<Rightarrow> string \<Rightarrow> user_info list" where
  "getOnlineUsers onlineUsers groupId =
     (case map_of onlineUsers groupId of None \<Rightarrow> [] | Some m \<Rightarrow> map snd m)"

text \<open>
  A connection: its id, the identity the handshake attached (\<open>None\<close> when the client
  sent no token) and the groups it has joined, a JavaScript Set, in insertion order.
\<close>

record socket =
  s_id :: string
  s_user :: "identity option"
  s_joinedGroups :: "string list"

text \<open>
  What the connections share: the store, the presence map and the rooms of the
  messaging library, each room the set of the ids of the sockets in it.
\<close>

record server =
  sv_db :: db
  sv_onlineUsers :: roster
  sv_rooms :: "string \<Rightarrow> string set"

text \<open>
  The handshake middleware. \<open>verify\<close> stands for the token library: the decoded payload
  of a valid token. The result is \<open>None\<close> when the connection is refused.
\<close>

definition handshake ::
  "(string \<Rightarrow> identity option) \<Rightarrow> string \<Rightarrow> string option \<Rightarrow> socket option" where
  "handshake verify sid token =
     (case token of
        None \<Rightarrow> Some \<lparr> s_id = sid, s_user = None, s_joinedGroups = [] \<rparr>
      | Some tok \<Rightarrow>
          if tok = [] then Some \<lparr> s_id = sid, s_user = None, s_joinedGroups = [] \<rparr>
          else
            (case verify tok of
               None \<Rightarrow> None
             | Some decoded \<Rightarrow>
                 Some \<lparr> s_id = sid, s_user = Some decoded, s_joinedGroups = [] \<rparr>))"

text \<open>A group id of an event payload is falsy when it is absent or empty.\<close>

definition falsy :: "string option \<Rightarrow> bool" where
  "falsy f = (case f of None \<Rightarrow> True | Some s \<Rightarrow> s = [])"

text \<open>Event \<open>join_group\<close>\<close>

definition on_join_group ::
  "server \<Rightarrow> socket \<Rightarrow> string option \<Rightarrow> server \<times> socket \<times> emission list" where
  "on_join_group sv sock groupIdField =
     (case s_user sock of
        None \<Rightarrow> (sv, sock, [(ToSocket (s_id sock), ErrorEvent ''Authentication required.'')])
      | Some user \<Rightarrow>
          (case groupIdField of
             None \<Rightarrow> (sv, sock, [(ToSocket (s_id sock), ErrorEvent ''groupId is required.'')])
           | Some groupId \<Rightarrow>
               if groupId = []
               then (sv, sock, [(ToSocket (s_id sock), ErrorEvent ''groupId is required.'')])
               else
                 (case db_groups (sv_db sv) groupId of
                    None \<Rightarrow> (sv, sock, [(ToSocket (s_id sock), ErrorEvent ''Group not found.'')])
                  | Some grp \<Rightarrow>
                      if \<not> isMember grp (userId user)
                      then (sv, sock, [(ToSocket (s_id sock),
                              ErrorEvent ''You are not a member of this group.'')])
                      else
                        let onlineUsers' = addOnlineUser (sv_onlineUsers sv) groupId
                              \<lparr> ui_userId = userId user, ui_displayName = displayName user,
                                ui_socketId = s_id sock \<rparr>
                        in (sv\<lparr> sv_rooms := (sv_rooms sv)(groupId :=
                                   insert (s_id sock) (sv_rooms sv groupId)),
                                 sv_onlineUsers := onlineUsers' \<rparr>,
                            sock\<lparr> s_joinedGroups := arrayUnion groupId (s_joinedGroups sock) \<rparr>,
                            [(ToRoomExcept groupId (s_id sock),
                                UserJoined (userId user) (displayName user)),
                             (ToSocket (s_id sock),
                                OnlineUsers groupId (getOnlineUsers onlineUsers' groupId))]))))"

text \<open>Event \<open>leave_group\<close>\<close>

definition on_leave_group ::
  "server \<Rightarrow> socket \<Rightarrow> string option \<Rightarrow> server \<times> socket \<times> emission list" where
  "on_leave_group sv sock groupIdField =
     (case groupIdField of
        None \<Rightarrow> (sv, sock, [])
      | Some groupId \<Rightarrow>
          if groupId = [] then (sv, sock, [])
          else
            (sv\<lparr> sv_rooms := (sv_rooms sv)(groupId := sv_rooms sv groupId - {s_id sock}),
                 sv_onlineUsers := removeOnlineUser (sv_onlineUsers sv) groupId
                                     (map_option userId (s_user sock)) \<rparr>,
             sock\<lparr> s_joinedGroups := arrayRemove groupId (s_joinedGroups sock) \<rparr>,
             [(ToRoomExcept groupId (s_id sock),
                 UserLeft (map_option userId (s_user sock))
                          (map_option displayName (s_user sock)))]))"

text \<open>Event \<open>send_message\<close>\<close>

definition on_send_message ::
  "server \<Rightarrow> socket \<Rightarrow> string option \<Rightarrow> string option \<Rightarrow> string \<Rightarrow> string
     \<Rightarrow> server \<times> socket \<times> emission list" where
  "on_send_message sv sock groupIdField textField newId now =
     (case s_user sock of
        None \<Rightarrow> (sv, sock, [(ToSocket (s_id sock), ErrorEvent ''Authentication required.'')])
      | Some user \<Rightarrow>
          if falsy groupIdField \<or> falsy (map_option trim textField)
          then (sv, sock, [(ToSocket (s_id sock), ErrorEvent ''groupId and text are required.'')])
          else if length (trim (the textField)) > 2000
          then (sv, sock, [(ToSocket (s_id sock),
                  ErrorEvent ''Message must be 2000 characters or less.'')])
          else
            let groupId = the groupIdField;
                message = \<lparr> msg_messageId = newId, msg_groupId = groupId,
                      msg_senderId = userId user, msg_senderEmail = email user,
                      msg_senderName = displayName user, msg_text = trim (the textField),
                      msg_createdAt = now, msg_updatedAt = now \<rparr>
            in (sv\<lparr> sv_db := (sv_db sv)\<lparr> db_messages :=
                       AList.update newId message (db_messages (sv_db sv)) \<rparr> \<rparr>,
                sock,
                [(ToRoom groupId, NewMessage message)]))"

text \<open>Events \<open>typing\<close> and \<open>stop_typing\<close>\<close>

definition on_typing ::
  "server \<Rightarrow> socket \<Rightarrow> string option \<Rightarrow> server \<times> socket \<times> emission list" where
  "on_typing sv sock groupIdField =
     (case s_user sock of
        None \<Rightarrow> (sv, sock, [])
      | Some user \<Rightarrow>
          if falsy groupIdField then (sv, sock, [])
          else (sv, sock,
                [(ToRoomExcept (the groupIdField) (s_id sock),
                    TypingEvent (userId user) (displayName user) (the groupIdField))]))"

definition on_stop_typing ::
  "server \<Rightarrow> socket \<Rightarrow> string option \<Rightarrow> server \<times> socket \<times> emission list" where
  "on_stop_typing sv sock groupIdField =
     (case s_user sock of
        None \<Rightarrow> (sv, sock, [])
      | Some user \<Rightarrow>
          if falsy groupIdField then (sv, sock, [])
          else (sv, sock,
                [(ToRoomExcept (the groupIdField) (s_id sock),
                    StopTypingEvent (userId user) (the groupIdField))]))"

text \<open>
  Event \<open>disconnect\<close>. The messaging library has taken the socket out of its rooms
  when the event fires; the handler then walks the joined groups in order.
\<close>

fun disconnect_groups ::
  "roster \<Rightarrow> socket \<Rightarrow> string list \<Rightarrow> roster \<times> emission list" where
  "disconnect_groups onlineUsers sock [] = (onlineUsers, [])"
| "disconnect_groups onlineUsers sock (groupId # rest) =
     (let onlineUsers' = removeOnlineUser onlineUsers groupId (map_option userId (s_user sock));
          e = (ToRoom groupId,
                 UserLeft (map_option userId (s_user sock))
                          (map_option displayName (s_user sock)));
          (final, es) = disconnect_groups onlineUsers' sock rest
      in (final, e # es))"

definition on_disconnect :: "server \<Rightarrow> socket \<Rightarrow> server \<times> socket \<times> emission list" where
  "on_disconnect sv sock =
     (let (onlineUsers', es) = disconnect_groups (sv_onlineUsers sv) sock (s_joinedGroups sock)
      in (sv\<lparr> sv_rooms := (\<lambda>g. sv_rooms sv g - {s_id sock}),
               sv_onlineUsers := onlineUsers' \<rparr>,
          sock\<lparr> s_joinedGroups := [] \<rparr>,
          es))"


text \<open>
  The archive entry a save request leaves behind once the next save overwrites it.
\<close>

definition archived :: "save_request \<Rightarrow> string \<Rightarrow> history_entry" where
  "archived r archivedAt = \<lparr> h_content = sr_content r,
     h_savedBy = \<lparr> a_userId = userId (sr_user r), a_displayName = displayName (sr_user r) \<rparr>,
     h_savedAt = sr_now r, h_archivedAt = archivedAt \<rparr>"

fun archives :: "save_request list \<Rightarrow> history_entry list" where
  "archives [] = []"
| "archives [r] = []"
| "archives (r # r' # rs) = archived r (sr_archivedAt r') # archives (r' # rs)"


text \<open>
  The shape \<open>addOnlineUser\<close> keeps the presence map in: every entry is filed under
  the user id it carries.
\<close>

definition roster_ok :: "roster \<Rightarrow> bool" where
  "roster_ok onlineUsers =
     list_all (\<lambda>(g, m). list_all (\<lambda>(k, v). ui_userId v = k) m) onlineUsers"

text \<open>The user ids on the list \<open>getOnlineUsers\<close> returns.\<close>

definition onlineUserIds :: "roster \<Rightarrow> string \<Rightarrow> string list" where
  "onlineUserIds onlineUsers groupId = map ui_userId (getOnlineUsers onlineUsers groupId)"


text \<open>The entries of one group in the presence map, and their shape.\<close>

definition inner :: "roster \<Rightarrow> string \<Rightarrow> (string \<times> user_info) list" where
  "inner r g = (case map_of r g of None \<Rightarrow> [] | Some m \<Rightarrow> m)"

definition entries_ok :: "(string \<times> user_info) list \<Rightarrow> bool" where
  "entries_ok m = list_all (\<lambda>(k, v). ui_userId v = k) m"

section \<open>Sample data\<close>

definition alice :: identity where
  "alice = \<lparr> userId = ''u1'', email = ''alice@example.org'', displayName = ''Alice'' \<rparr>"

definition bob :: identity where
  "bob = \<lparr> userId = ''u2'', email = ''bob@example.org'', displayName = ''Bob'' \<rparr>"

definition sample_uuid :: string where
  "sample_uuid = ''a3f9b2c1-7d4e-4f1a-9b3c-0123456789ab''"

text \<open>A store with two registered users and nothing else.\<close>

definition db0 :: db where
  "db0 = \<lparr> db_groups = Map.empty,
           db_users = [''u1'' \<mapsto> \<lparr> u_groups = [], u_updatedAt = ''t0'' \<rparr>,
                       ''u2'' \<mapsto> \<lparr> u_groups = [], u_updatedAt = ''t0'' \<rparr>],
           db_messages = [],
           db_notes = Map.empty,
           db_noteHistory = (\<lambda>_. []),
           db_tasks = Map.empty \<rparr>"

text \<open>
  A store with two groups: Alice is the admin of both, Bob is a member of the first
  only. Each group has a task and a message of Alice's.
\<close>

definition sample_group :: group where
  "sample_group = \<lparr> g_groupId = ''g1'', g_name = ''Midterm Prep'', g_description = [],
       g_inviteCode = ''A3F9B2C1'', g_createdBy = ''u1'',
       g_members = [\<lparr> m_userId = ''u1'', m_email = ''alice@example.org'',
                      m_displayName = ''Alice'', m_role = ''admin'', m_joinedAt = ''t1'' \<rparr>,
                    \<lparr> m_userId = ''u2'', m_email = ''bob@example.org'',
                      m_displayName = ''Bob'', m_role = ''member'', m_joinedAt = ''t2'' \<rparr>],
       g_createdAt = ''t1'', g_updatedAt = ''t2'' \<rparr>"

definition other_group :: group where
  "other_group = \<lparr> g_groupId = ''g2'', g_name = ''Finals'', g_description = [],
       g_inviteCode = ''0B7E44D2'', g_createdBy = ''u1'',
       g_members = [\<lparr> m_userId = ''u1'', m_email = ''alice@example.org'',
                      m_displayName = ''Alice'', m_role = ''admin'', m_joinedAt = ''t1'' \<rparr>],
       g_createdAt = ''t1'', g_updatedAt = ''t1'' \<rparr>"

definition sample_task :: "string \<Rightarrow> string \<Rightarrow> task" where
  "sample_task tid gid = \<lparr> t_taskId = tid, t_groupId = gid, t_title = ''Read chapter 3'',
       t_description = [], t_assignee = None, t_dueDate = None, t_completed = JBool False,
       t_completedAt = None, t_completedBy = None,
       t_createdBy = \<lparr> a_userId = ''u1'', a_displayName = ''Alice'' \<rparr>,
       t_createdAt = ''t3'', t_updatedAt = ''t3'' \<rparr>"

definition sample_message :: "string \<Rightarrow> string \<Rightarrow> string \<Rightarrow> message" where
  "sample_message mid gid at = \<lparr> msg_messageId = mid, msg_groupId = gid,
       msg_senderId = ''u1'', msg_senderEmail = ''alice@example.org'',
       msg_senderName = ''Alice'', msg_text = ''hi'', msg_createdAt = at,
       msg_updatedAt = at \<rparr>"

definition db1 :: db where
  "db1 = \<lparr> db_groups = [''g1'' \<mapsto> sample_group, ''g2'' \<mapsto> other_group],
           db_users = [''u1'' \<mapsto> \<lparr> u_groups = [''g1'', ''g2''], u_updatedAt = ''t1'' \<rparr>,
                       ''u2'' \<mapsto> \<lparr> u_groups = [''g1''], u_updatedAt = ''t2'' \<rparr>],
           db_messages = [(''m1'', sample_message ''m1'' ''g1'' ''t4''),
                          (''m2'', sample_message ''m2'' ''g2'' ''t5'')],
           db_notes = Map.empty,
           db_noteHistory = (\<lambda>_. []),
           db_tasks = [''k1'' \<mapsto> sample_task ''k1'' ''g1'',
                       ''k2'' \<mapsto> sample_task ''k2'' ''g2''] \<rparr>"


text \<open>Three saves of the first group's note, by Alice, Bob and Alice again.\<close>

definition sample_saves :: "save_request list" where
  "sample_saves =
     [\<lparr> sr_user = alice, sr_content = ''v1'', sr_archivedAt = ''a1'', sr_now = ''t11'' \<rparr>,
      \<lparr> sr_user = bob, sr_content = ''v2'', sr_archivedAt = ''a2'', sr_now = ''t12'' \<rparr>,
      \<lparr> sr_user = alice, sr_content = ''v3'', sr_archivedAt = ''a3'', sr_now = ''t13'' \<rparr>]"

text \<open>
  A server on the second store with nobody online, a connection without identity and
  two connections of Alice's and one of Bob's.
\<close>

definition sv0 :: server where
  "sv0 = \<lparr> sv_db = db1, sv_onlineUsers = [], sv_rooms = (\<lambda>_. {}) \<rparr>"

definition anon_socket :: socket where
  "anon_socket = \<lparr> s_id = ''s9'', s_user = None, s_joinedGroups = [] \<rparr>"

definition alice_socket :: "string \<Rightarrow> socket" where
  "alice_socket sid = \<lparr> s_id = sid, s_user = Some alice, s_joinedGroups = [] \<rparr>"

definition bob_socket :: socket where
  "bob_socket = \<lparr> s_id = ''s3'', s_user = Some bob, s_joinedGroups = [] \<rparr>"


text \<open>The second store with three messages in the first group, not in order of time.\<close>

definition db2 :: db where
  "db2 = db1\<lparr> db_messages :=
       [(''m1'', sample_message ''m1'' ''g1'' ''2024-05-01T10:00:00.000Z''),
        (''m2'', sample_message ''m2'' ''g2'' ''2024-05-01T10:30:00.000Z''),
        (''m3'', sample_message ''m3'' ''g1'' ''2024-05-01T12:00:00.000Z''),
        (''m4'', sample_message ''m4'' ''g1'' ''2024-05-01T11:00:00.000Z'')] \<rparr>"


section \<open>Invite codes\<close>

lemma take_filter_prefix:
  assumes "n \<le> length xs" and "\<And>i. i < n \<Longrightarrow> P (xs ! i)"
  shows "take n (filter P xs) = take n xs"
proof -
  have all: "\<forall>x \<in> set (take n xs). P x"
    using assms by (auto simp: in_set_conv_nth)
  have "filter P xs = filter P (take n xs) @ filter P (drop n xs)"
    by (metis append_take_drop_id filter_append)
  also have "filter P (take n xs) = take n xs"
    using all by (simp add: filter_id_conv)
  finally have "take n (filter P xs) = take n (take n xs @ filter P (drop n xs))"
    by simp
  also have "\<dots> = take n xs"
    using assms(1) by simp
  finally show ?thesis .
qed

lemma toUpperCase_hex_digits:
  "list_all (\<lambda>c. case toUpperCase_units c of
                    [n] \<Rightarrow> isUpperHex (char_of n) \<and> of_char (char_of n :: char) = n
                  | _ \<Rightarrow> False) ''0123456789abcdef''"
  by code_simp

lemma toUpperCase_units_hex:
  assumes "isLowerHex c"
  shows "\<exists>n. toUpperCase_units c = [n] \<and> isUpperHex (char_of n)
           \<and> of_char (char_of n :: char) = n"
proof -
  have "case toUpperCase_units c of
          [n] \<Rightarrow> isUpperHex (char_of n) \<and> of_char (char_of n :: char) = n
        | _ \<Rightarrow> False"
    using toUpperCase_hex_digits assms unfolding isLowerHex_def list_all_iff by blast
  then show ?thesis
    by (auto split: list.splits)
qed

lemma toUpperCase_hex:
  assumes "\<forall>c \<in> set xs. isLowerHex c"
  shows "length (toUpperCase xs) = length xs"
    and "list_all isUpperHex (map char_of (toUpperCase xs))"
    and "map of_char (map char_of (toUpperCase xs) :: string) = toUpperCase xs"
  using assms
proof (induction xs)
  case Nil
  { case 1 show ?case by (simp add: toUpperCase_def) }
  { case 2 show ?case by (simp add: toUpperCase_def) }
  { case 3 show ?case by (simp add: toUpperCase_def) }
next
  case (Cons x xs)
  { case 1
    then show ?case
      using Cons.IH(1) toUpperCase_units_hex[of x] by (auto simp: toUpperCase_def) }
  { case 2
    then show ?case
      using Cons.IH(2) toUpperCase_units_hex[of x] by (auto simp: toUpperCase_def) }
  { case 3
    then show ?case
      using Cons.IH(3) toUpperCase_units_hex[of x] by (auto simp: toUpperCase_def) }
qed

lemma uuid_shape_prefix:
  assumes "uuid_shape u" and "i < 8"
  shows "isLowerHex (u ! i)" and "u ! i \<noteq> CHR ''-''"
proof -
  have mem: "i \<in> set [0..<36]" using assms(2) by simp
  have "\<forall>j \<in> set [0..<36]. (if j \<in> {8, 13, 18, 23} then u ! j = CHR ''-'' else isLowerHex (u ! j))"
    using assms(1) unfolding uuid_shape_def list_all_iff by blast
  with mem have "if i \<in> {8, 13, 18, 23} then u ! i = CHR ''-'' else isLowerHex (u ! i)"
    by blast
  with assms(2) show "isLowerHex (u ! i)" by simp
  then show "u ! i \<noteq> CHR ''-''" by (auto simp: isLowerHex_def)
qed

lemma inviteCode_of_prefix:
  assumes "uuid_shape u"
  shows "inviteCode_of u = map char_of (toUpperCase (take 8 u))"
proof -
  have "length u = 36" using assms by (simp add: uuid_shape_def)
  then have "take 8 (filter (\<lambda>c. c \<noteq> CHR ''-'') u) = take 8 u"
    using uuid_shape_prefix(2)[OF assms] by (intro take_filter_prefix) simp_all
  then show ?thesis by (simp add: inviteCode_of_def)
qed

lemma uuid_shape_take8:
  assumes "uuid_shape u"
  shows "\<forall>c \<in> set (take 8 u). isLowerHex c" and "length (take 8 u) = 8"
proof -
  have len: "length u = 36" using assms by (simp add: uuid_shape_def)
  show "\<forall>c \<in> set (take 8 u). isLowerHex c"
  proof
    fix c assume "c \<in> set (take 8 u)"
    then obtain i where "i < 8" and "c = u ! i"
      using len by (auto simp: in_set_conv_nth)
    then show "isLowerHex c" using uuid_shape_prefix(1)[OF assms] by simp
  qed
  show "length (take 8 u) = 8" using len by simp
qed

lemma inviteCode_of_length: "uuid_shape u \<Longrightarrow> length (inviteCode_of u) = 8"
  using toUpperCase_hex(1)[OF uuid_shape_take8(1)] uuid_shape_take8(2)
  by (simp add: inviteCode_of_prefix)

lemma inviteCode_of_hex:
  assumes "uuid_shape u"
  shows "list_all isUpperHex (inviteCode_of u)"
  using toUpperCase_hex(2)[OF uuid_shape_take8(1)[OF assms]]
  by (simp add: inviteCode_of_prefix[OF assms])

lemma inviteCode_of_units:
  assumes "uuid_shape u"
  shows "map of_char (inviteCode_of u) = toUpperCase (take 8 u)"
  using toUpperCase_hex(3)[OF uuid_shape_take8(1)[OF assms]]
  by (simp add: inviteCode_of_prefix[OF assms])

lemma upper_hex_letters:
  "list_all (\<lambda>c. c \<notin> set ''GHIJKLMNOPQRSTUVWXYZ'') ''0123456789ABCDEF''"
  by code_simp

lemma isUpperHex_not_G_to_Z: "isUpperHex c \<Longrightarrow> c \<notin> set ''GHIJKLMNOPQRSTUVWXYZ''"
  using upper_hex_letters unfolding isUpperHex_def list_all_iff by blast

text \<open>
  C10. A group creation that succeeds with a UUID of the textual UUID form stores and
  returns a group whose invite code has exactly 8 characters, each of them one of
  0-9 and A-F, so none of them one of the letters G to Z; the code is the uppercased
  first 8 characters of the UUID, code unit by code unit.
\<close>

theorem create_group_inviteCode:
  assumes "uuid_shape uuid"
    and "create_group d user name description newId uuid now = (201, Some g, d')"
  shows "db_groups d' newId = Some g
    \<and> map of_char (g_inviteCode g) = toUpperCase (take 8 uuid)
    \<and> g_inviteCode g = map char_of (toUpperCase (take 8 uuid))
    \<and> length (g_inviteCode g) = 8
    \<and> list_all isUpperHex (g_inviteCode g)
    \<and> list_all (\<lambda>c. c \<notin> set ''GHIJKLMNOPQRSTUVWXYZ'') (g_inviteCode g)"
proof -
  have code: "g_inviteCode g = inviteCode_of uuid" and stored: "db_groups d' newId = Some g"
    using assms(2)
    by (auto simp: create_group_def Let_def split: option.splits if_splits)
  have "list_all (\<lambda>c. c \<notin> set ''GHIJKLMNOPQRSTUVWXYZ'') (inviteCode_of uuid)"
    using inviteCode_of_hex[OF assms(1)] isUpperHex_not_G_to_Z
    unfolding list_all_iff by blast
  then show ?thesis
    using code stored inviteCode_of_prefix[OF assms(1)] inviteCode_of_length[OF assms(1)]
      inviteCode_of_hex[OF assms(1)] inviteCode_of_units[OF assms(1)]
    by simp
qed


lemma sample_uuid_shape: "uuid_shape sample_uuid"
  unfolding sample_uuid_def by code_simp

lemma trim_Midterm_Prep: "trim ''Midterm Prep'' = ''Midterm Prep''"
  by code_simp

lemma sample_uuid_code: "map char_of (toUpperCase (take 8 sample_uuid)) = ''A3F9B2C1''"
  unfolding sample_uuid_def by code_simp

theorem create_group_inviteCode_witness:
  "uuid_shape sample_uuid
   \<and> (\<exists>g d'. create_group db0 alice (Some ''Midterm Prep'') None ''g1'' sample_uuid ''t1''
                = (201, Some g, d')
         \<and> db_groups d' ''g1'' = Some g
         \<and> g_inviteCode g = ''A3F9B2C1''
         \<and> length (g_inviteCode g) = 8
         \<and> list_all isUpperHex (g_inviteCode g))"
proof -
  obtain g d' where r:
    "create_group db0 alice (Some ''Midterm Prep'') None ''g1'' sample_uuid ''t1''
       = (201, Some g, d')"
    by (simp add: create_group_def db0_def alice_def trim_Midterm_Prep Let_def)
  note t = create_group_inviteCode[OF sample_uuid_shape r]
  have c: "g_inviteCode g = ''A3F9B2C1''"
    using t[THEN conjunct2, THEN conjunct2, THEN conjunct1] sample_uuid_code by (simp only:)
  show ?thesis
    using r sample_uuid_shape t c by blast
qed

section \<open>Tasks: the cross-group guard and the completion toggle\<close>

lemma requireGroupMembership_Inl:
  "requireGroupMembership d groupId uid = Inl st \<Longrightarrow> st = 404 \<or> st = 403"
  by (auto simp: requireGroupMembership_def split: option.splits if_splits)

lemma requireGroupMembership_member:
  "db_groups d groupId = Some grp \<Longrightarrow> isMember grp uid
     \<Longrightarrow> requireGroupMembership d groupId uid = Inr grp"
  by (simp add: requireGroupMembership_def)

lemma update_task_guard:
  assumes "db_tasks d taskId = Some t" and "t_groupId t \<noteq> groupId"
  shows "snd (update_task isISO d user groupId taskId b now) = d
    \<and> fst (update_task isISO d user groupId taskId b now) \<in> {400, 403, 404}"
  using assms requireGroupMembership_Inl[of d groupId "userId user"]
  by (auto simp: update_task_def split: sum.splits)

lemma delete_task_guard:
  assumes "db_tasks d taskId = Some t" and "t_groupId t \<noteq> groupId"
  shows "snd (delete_task d user groupId taskId) = d
    \<and> fst (delete_task d user groupId taskId) \<in> {400, 403, 404}"
  using assms requireGroupMembership_Inl[of d groupId "userId user"]
  by (auto simp: delete_task_def split: sum.splits)

lemma complete_task_guard:
  assumes "db_tasks d taskId = Some t" and "t_groupId t \<noteq> groupId"
  shows "snd (complete_task d user groupId taskId c now) = d
    \<and> fst (complete_task d user groupId taskId c now) \<in> {400, 403, 404}"
  using assms requireGroupMembership_Inl[of d groupId "userId user"]
  by (auto simp: complete_task_def split: sum.splits)

lemma delete_message_guard:
  assumes "map_of (db_messages d) messageId = Some m" and "msg_groupId m \<noteq> groupId"
  shows "snd (delete_message d user groupId messageId) = (d, [])
    \<and> fst (delete_message d user groupId messageId) \<in> {400, 403, 404}"
  using assms requireGroupMembership_Inl[of d groupId "userId user"]
  by (auto simp: delete_message_def split: sum.splits)

text \<open>
  C5. When the task (or message) the id resolves to is stored under a group id other
  than the one of the request path, the update, delete and completion routes of the
  tasks and the delete route of the messages answer with one of the client errors
  400, 403 and 404 and leave the store as it was; the message route also emits nothing.
\<close>

theorem cross_group_guard:
  "(db_tasks d taskId = Some t \<and> t_groupId t \<noteq> groupId \<longrightarrow>
      update_task isISO d user groupId taskId b now \<in> {(400, d), (403, d), (404, d)}
      \<and> delete_task d user groupId taskId \<in> {(400, d), (403, d), (404, d)}
      \<and> complete_task d user groupId taskId c now \<in> {(400, d), (403, d), (404, d)})
   \<and> (map_of (db_messages d) messageId = Some m \<and> msg_groupId m \<noteq> groupId \<longrightarrow>
      delete_message d user groupId messageId \<in> {(400, d, []), (403, d, []), (404, d, [])})"
proof (intro conjI impI)
  assume a: "db_tasks d taskId = Some t \<and> t_groupId t \<noteq> groupId"
  show "update_task isISO d user groupId taskId b now \<in> {(400, d), (403, d), (404, d)}"
    using update_task_guard[of d taskId t groupId isISO user b now] a
    by (cases "update_task isISO d user groupId taskId b now") auto
  show "delete_task d user groupId taskId \<in> {(400, d), (403, d), (404, d)}"
    using delete_task_guard[of d taskId t groupId user] a
    by (cases "delete_task d user groupId taskId") auto
  show "complete_task d user groupId taskId c now \<in> {(400, d), (403, d), (404, d)}"
    using complete_task_guard[of d taskId t groupId user c now] a
    by (cases "complete_task d user groupId taskId c now") auto
next
  assume a: "map_of (db_messages d) messageId = Some m \<and> msg_groupId m \<noteq> groupId"
  show "delete_message d user groupId messageId \<in> {(400, d, []), (403, d, []), (404, d, [])}"
    using delete_message_guard[of d messageId m groupId user] a
    by (cases "delete_message d user groupId messageId") auto
qed

lemma alice_fields:
  "userId alice = ''u1''" "email alice = ''alice@example.org''" "displayName alice = ''Alice''"
  by (simp_all add: alice_def)

lemma bob_fields:
  "userId bob = ''u2''" "email bob = ''bob@example.org''" "displayName bob = ''Bob''"
  by (simp_all add: bob_def)

lemma sample_member_alice: "isMember sample_group ''u1''" "isMember other_group ''u1''"
  by (simp_all add: isMember_def sample_group_def other_group_def)

lemma db1_lookups:
  "db_groups db1 ''g1'' = Some sample_group"
  "db_groups db1 ''g2'' = Some other_group"
  "db_tasks db1 ''k1'' = Some (sample_task ''k1'' ''g1'')"
  "db_tasks db1 ''k2'' = Some (sample_task ''k2'' ''g2'')"
  "map_of (db_messages db1) ''m1'' = Some (sample_message ''m1'' ''g1'' ''t4'')"
  "map_of (db_messages db1) ''m2'' = Some (sample_message ''m2'' ''g2'' ''t5'')"
  by (simp_all add: db1_def)

theorem cross_group_guard_witness:
  "db_tasks db1 ''k2'' = Some (sample_task ''k2'' ''g2'')
   \<and> t_groupId (sample_task ''k2'' ''g2'') \<noteq> ''g1''
   \<and> map_of (db_messages db1) ''m2'' = Some (sample_message ''m2'' ''g2'' ''t5'')
   \<and> msg_groupId (sample_message ''m2'' ''g2'' ''t5'') \<noteq> ''g1''
   \<and> update_task (\<lambda>_. True) db1 alice ''g1'' ''k2''
        \<lparr> tu_title = Some ''x'', tu_description = None, tu_assignee = None,
          tu_dueDate = None \<rparr> ''t9'' = (400, db1)
   \<and> delete_task db1 alice ''g1'' ''k2'' = (400, db1)
   \<and> complete_task db1 alice ''g1'' ''k2'' (JBool True) ''t9'' = (400, db1)
   \<and> delete_message db1 alice ''g1'' ''m2'' = (400, db1, [])"
proof -
  have h1: "db_tasks db1 ''k2'' = Some (sample_task ''k2'' ''g2'')
      \<and> t_groupId (sample_task ''k2'' ''g2'') \<noteq> ''g1''"
    by (simp add: db1_lookups sample_task_def)
  have h2: "map_of (db_messages db1) ''m2'' = Some (sample_message ''m2'' ''g2'' ''t5'')
      \<and> msg_groupId (sample_message ''m2'' ''g2'' ''t5'') \<noteq> ''g1''"
    by (simp add: db1_lookups sample_message_def)
  have mem: "requireGroupMembership db1 ''g1'' ''u1'' = Inr sample_group"
    by (simp add: requireGroupMembership_member db1_lookups sample_member_alice)
  have tr: "trim ''x'' = ''x''" by code_simp
  have e1: "fst (update_task (\<lambda>_. True) db1 alice ''g1'' ''k2''
        \<lparr> tu_title = Some ''x'', tu_description = None, tu_assignee = None,
          tu_dueDate = None \<rparr> ''t9'') = 400"
    by (simp add: update_task_def update_valid_def tr mem alice_fields db1_lookups sample_task_def)
  have e2: "fst (delete_task db1 alice ''g1'' ''k2'') = 400"
    by (simp add: delete_task_def mem alice_fields db1_lookups sample_task_def)
  have e3: "fst (complete_task db1 alice ''g1'' ''k2'' (JBool True) ''t9'') = 400"
    by (simp add: complete_task_def isBoolean_def mem alice_fields db1_lookups sample_task_def)
  have e4: "fst (delete_message db1 alice ''g1'' ''m2'') = 400"
    by (simp add: delete_message_def mem db1_lookups sample_message_def alice_fields)
  from cross_group_guard[of db1 "''k2''" "sample_task ''k2'' ''g2''" "''g1''" "\<lambda>_. True" alice
      "\<lparr> tu_title = Some ''x'', tu_description = None, tu_assignee = None, tu_dueDate = None \<rparr>"
      "''t9''" "JBool True" "''m2''" "sample_message ''m2'' ''g2'' ''t5''"] h1 h2
  have g: "update_task (\<lambda>_. True) db1 alice ''g1'' ''k2''
        \<lparr> tu_title = Some ''x'', tu_description = None, tu_assignee = None,
          tu_dueDate = None \<rparr> ''t9'' \<in> {(400, db1), (403, db1), (404, db1)}"
      "delete_task db1 alice ''g1'' ''k2'' \<in> {(400, db1), (403, db1), (404, db1)}"
      "complete_task db1 alice ''g1'' ''k2'' (JBool True) ''t9'' \<in> {(400, db1), (403, db1), (404, db1)}"
      "delete_message db1 alice ''g1'' ''m2'' \<in> {(400, db1, []), (403, db1, []), (404, db1, [])}"
    by blast+
  show ?thesis
    using h1 h2 g e1 e2 e3 e4 by auto
qed

text \<open>
  For the booleans \<open>true\<close> and \<open>false\<close> the toggle of a member of the group on a task
  of that group rewrites the task in one update: with \<open>true\<close> the flag is set,
  \<open>completedAt\<close> is the current timestamp and \<open>completedBy\<close> the acting user's id and
  display name; with \<open>false\<close> the flag is cleared and both are null. The update stamp is
  the current timestamp; every other field of the task and every other document stay
  as they were.
\<close>

lemma complete_task_boolean:
  assumes "db_groups d groupId = Some grp" and "isMember grp (userId user)"
    and "db_tasks d taskId = Some t" and "t_groupId t = groupId"
  shows "\<exists>d' t'. complete_task d user groupId taskId (JBool completed) now = (200, d')
    \<and> db_tasks d' taskId = Some t'
    \<and> t_completed t' = JBool completed
    \<and> t_completedAt t' = (if completed then Some now else None)
    \<and> t_completedBy t' =
          (if completed
           then Some \<lparr> a_userId = userId user, a_displayName = displayName user \<rparr>
           else None)
    \<and> t_updatedAt t' = now
    \<and> t' = t\<lparr> t_completed := t_completed t', t_completedAt := t_completedAt t',
                t_completedBy := t_completedBy t', t_updatedAt := now \<rparr>
    \<and> d' = d\<lparr> db_tasks := (db_tasks d)(taskId \<mapsto> t') \<rparr>"
  using assms requireGroupMembership_member[OF assms(1,2)]
  by (simp add: complete_task_def isBoolean_def truthy_def)

lemma sample_task_of_bob:
  "db_groups db1 ''g1'' = Some sample_group" "isMember sample_group (userId bob)"
  "db_tasks db1 ''k1'' = Some (sample_task ''k1'' ''g1'')"
  "t_groupId (sample_task ''k1'' ''g1'') = ''g1''"
  by (simp_all add: db1_lookups bob_fields isMember_def sample_group_def sample_task_def)

lemma complete_task_boolean_example:
  "(\<exists>d' t'. complete_task db1 bob ''g1'' ''k1'' (JBool True) ''t9'' = (200, d')
        \<and> db_tasks d' ''k1'' = Some t'
        \<and> t_completed t' = JBool True \<and> t_completedAt t' = Some ''t9''
        \<and> t_completedBy t' = Some \<lparr> a_userId = ''u2'', a_displayName = ''Bob'' \<rparr>)
   \<and> (\<exists>d' t'. complete_task db1 bob ''g1'' ''k1'' (JBool False) ''t9'' = (200, d')
        \<and> db_tasks d' ''k1'' = Some t'
        \<and> t_completed t' = JBool False \<and> t_completedAt t' = None
        \<and> t_completedBy t' = None)"
proof -
  have A: "\<exists>d' t'. complete_task db1 bob ''g1'' ''k1'' (JBool True) ''t9'' = (200, d')
        \<and> db_tasks d' ''k1'' = Some t'
        \<and> t_completed t' = JBool True \<and> t_completedAt t' = Some ''t9''
        \<and> t_completedBy t' = Some \<lparr> a_userId = ''u2'', a_displayName = ''Bob'' \<rparr>"
    using complete_task_boolean[OF sample_task_of_bob, of True "''t9''"]
    unfolding bob_fields if_True by blast
  have B: "\<exists>d' t'. complete_task db1 bob ''g1'' ''k1'' (JBool False) ''t9'' = (200, d')
        \<and> db_tasks d' ''k1'' = Some t'
        \<and> t_completed t' = JBool False \<and> t_completedAt t' = None
        \<and> t_completedBy t' = None"
    using complete_task_boolean[OF sample_task_of_bob, of False "''t9''"]
    unfolding if_False by blast
  show ?thesis using A B by blast
qed

text \<open>
  C8. The toggle does not clear the completion fields for every accepted request to
  un-complete. The validation chain lets the text \<open>false\<close> pass (what a form encoded
  body sends). The handler stores that text as the flag and, a non-empty text being
  truthy, sets \<open>completedAt\<close> to the current timestamp and \<open>completedBy\<close> to the acting
  user, where the boolean \<open>false\<close> clears both.
\<close>

theorem complete_task_text_false:
  "isBoolean (JString ''false'')
   \<and> (\<exists>d' t'. complete_task db1 bob ''g1'' ''k1'' (JString ''false'') ''t9'' = (200, d')
         \<and> db_tasks d' ''k1'' = Some t'
         \<and> t_completed t' = JString ''false''
         \<and> t_completedAt t' = Some ''t9''
         \<and> t_completedBy t' = Some \<lparr> a_userId = ''u2'', a_displayName = ''Bob'' \<rparr>)"
proof -
  have v: "isBoolean (JString ''false'')" "truthy (JString ''false'')"
    by (simp_all add: isBoolean_def truthy_def)
  have mem: "requireGroupMembership db1 ''g1'' ''u2'' = Inr sample_group"
    using requireGroupMembership_member[OF sample_task_of_bob(1,2)] by (simp add: bob_fields)
  let ?t' = "(sample_task ''k1'' ''g1'')\<lparr> t_completed := JString ''false'',
      t_completedAt := Some ''t9'',
      t_completedBy := Some \<lparr> a_userId = ''u2'', a_displayName = ''Bob'' \<rparr>,
      t_updatedAt := ''t9'' \<rparr>"
  let ?d' = "db1\<lparr> db_tasks := (db_tasks db1)(''k1'' \<mapsto> ?t') \<rparr>"
  have run: "complete_task db1 bob ''g1'' ''k1'' (JString ''false'') ''t9'' = (200, ?d')"
    using v sample_task_of_bob(3,4)
    by (simp add: complete_task_def mem bob_fields)
  have ex: "\<exists>d' t'. complete_task db1 bob ''g1'' ''k1'' (JString ''false'') ''t9'' = (200, d')
         \<and> db_tasks d' ''k1'' = Some t'
         \<and> t_completed t' = JString ''false''
         \<and> t_completedAt t' = Some ''t9''
         \<and> t_completedBy t' = Some \<lparr> a_userId = ''u2'', a_displayName = ''Bob'' \<rparr>"
    apply (rule exI[of _ ?d'], rule exI[of _ ?t'])
    apply (insert run)
    apply (intro conjI)
        apply (assumption | simp)+
    done
  show ?thesis
    using v(1) ex by (rule conjI)
qed

section \<open>Notes: what a run of saves archives\<close>

lemma save_note_200:
  assumes "save_note d user groupId (Some content) archivedAt now = (200, d', es)"
  shows "db_groups d' = db_groups d"
    and "db_notes d' groupId = Some \<lparr> n_groupId = groupId, n_content = content,
           n_lastEditedBy = \<lparr> a_userId = userId user, a_displayName = displayName user \<rparr>,
           n_lastEditedAt = now, n_updatedAt = now \<rparr>"
    and "db_noteHistory d' groupId =
           db_noteHistory d groupId @
             (case db_notes d groupId of
                None \<Rightarrow> []
              | Some prev \<Rightarrow> [\<lparr> h_content = n_content prev, h_savedBy = n_lastEditedBy prev,
                               h_savedAt = n_lastEditedAt prev, h_archivedAt = archivedAt \<rparr>])"
  using assms requireGroupMembership_Inl[of d groupId "userId user"]
  by (auto simp: save_note_def Let_def split: sum.splits option.splits)

lemma save_note_member:
  assumes "db_groups d groupId = Some grp" and "isMember grp (userId user)"
  shows "fst (save_note d user groupId (Some content) archivedAt now) = 200"
  using requireGroupMembership_member[OF assms]
  by (simp add: save_note_def Let_def)

lemma length_archives: "length (archives rs) = length rs - 1"
  by (induction rs rule: archives.induct) simp_all

lemma archives_nth:
  "k < length rs - 1 \<Longrightarrow> archives rs ! k = archived (rs ! k) (sr_archivedAt (rs ! Suc k))"
proof (induction rs arbitrary: k rule: archives.induct)
  case (3 r r' rs)
  then show ?case by (cases k) simp_all
qed simp_all

lemma save_notes_after_first:
  assumes "save_notes d groupId rs = Some d'"
    and "db_notes d groupId = Some \<lparr> n_groupId = groupId, n_content = sr_content r,
           n_lastEditedBy = \<lparr> a_userId = userId (sr_user r),
                              a_displayName = displayName (sr_user r) \<rparr>,
           n_lastEditedAt = sr_now r, n_updatedAt = sr_now r \<rparr>"
  shows "db_noteHistory d' groupId = db_noteHistory d groupId @ archives (r # rs)
    \<and> (\<exists>n. db_notes d' groupId = Some n \<and> n_content n = sr_content (last (r # rs)))"
  using assms
proof (induction rs arbitrary: d r)
  case Nil
  then show ?case by simp
next
  case (Cons r' rs)
  obtain st d1 es where s: "save_note d (sr_user r') groupId (Some (sr_content r'))
      (sr_archivedAt r') (sr_now r') = (st, d1, es)"
    by (metis prod_cases3)
  with Cons.prems(1) have st: "st = 200" and rest: "save_notes d1 groupId rs = Some d'"
    by (auto split: if_splits)
  note f = save_note_200[OF s[unfolded st]]
  have h1: "db_noteHistory d1 groupId =
      db_noteHistory d groupId @ [archived r (sr_archivedAt r')]"
    using f(3) Cons.prems(2) by (simp add: archived_def)
  from Cons.IH[OF rest f(2)] h1 show ?case by simp
qed

text \<open>
  C2. Take a group that has neither a note document nor archive entries, and a run of
  N save requests (N at least 1), each answered with 200. Afterwards the archive of
  the group has exactly N - 1 entries, and for every k below N - 1 its k-th entry
  holds the content, the editor and the edit stamp that the k-th save wrote, stamped
  with the archive time of the save that replaced it; the note itself holds the content
  of the last save. So the first save archives nothing and every later one archives
  what it overwrites.
\<close>

theorem note_history_after_saves:
  assumes "db_notes d groupId = None" and "db_noteHistory d groupId = []"
    and "rs \<noteq> []" and "save_notes d groupId rs = Some d'"
  shows "length (db_noteHistory d' groupId) = length rs - 1
    \<and> map h_content (db_noteHistory d' groupId) = butlast (map sr_content rs)
    \<and> (\<forall>k < length rs - 1.
          db_noteHistory d' groupId ! k = archived (rs ! k) (sr_archivedAt (rs ! Suc k))
          \<and> h_content (db_noteHistory d' groupId ! k) = sr_content (rs ! k))
    \<and> (\<exists>n. db_notes d' groupId = Some n \<and> n_content n = sr_content (last rs))"
proof -
  obtain r rest where rs: "rs = r # rest" using assms(3) by (cases rs) auto
  obtain st d1 es where s: "save_note d (sr_user r) groupId (Some (sr_content r))
      (sr_archivedAt r) (sr_now r) = (st, d1, es)"
    by (metis prod_cases3)
  with assms(4) rs have st: "st = 200" and rest: "save_notes d1 groupId rest = Some d'"
    by (auto split: if_splits)
  note f = save_note_200[OF s[unfolded st]]
  have h1: "db_noteHistory d1 groupId = []"
    using f(3) assms(1,2) by simp
  from save_notes_after_first[OF rest f(2)] h1
  have hist: "db_noteHistory d' groupId = archives rs"
    and cur: "\<exists>n. db_notes d' groupId = Some n \<and> n_content n = sr_content (last rs)"
    by (simp_all add: rs)
  have contents: "map h_content (archives xs) = butlast (map sr_content xs)" for xs
    by (induction xs rule: archives.induct) (simp_all add: archived_def)
  have nth: "\<forall>k < length rs - 1.
          archives rs ! k = archived (rs ! k) (sr_archivedAt (rs ! Suc k))
          \<and> h_content (archives rs ! k) = sr_content (rs ! k)"
    by (simp add: archives_nth archived_def)
  have "length (db_noteHistory d' groupId) = length rs - 1"
    unfolding hist by (rule length_archives)
  moreover have "map h_content (db_noteHistory d' groupId) = butlast (map sr_content rs)"
    unfolding hist by (rule contents)
  moreover have "\<forall>k < length rs - 1.
          db_noteHistory d' groupId ! k = archived (rs ! k) (sr_archivedAt (rs ! Suc k))
          \<and> h_content (db_noteHistory d' groupId ! k) = sr_content (rs ! k)"
    unfolding hist by (rule nth)
  ultimately show ?thesis using cur by blast
qed

text \<open>
  Such a run does succeed when every request comes from a member of the group: the
  saves leave the group documents alone.
\<close>

lemma save_notes_members:
  assumes "db_groups d groupId = Some grp"
    and "list_all (\<lambda>r. isMember grp (userId (sr_user r))) rs"
  shows "\<exists>d'. save_notes d groupId rs = Some d'"
  using assms
proof (induction rs arbitrary: d)
  case Nil
  then show ?case by simp
next
  case (Cons r rs)
  obtain st d1 es where s: "save_note d (sr_user r) groupId (Some (sr_content r))
      (sr_archivedAt r) (sr_now r) = (st, d1, es)"
    by (metis prod_cases3)
  have "isMember grp (userId (sr_user r))"
    using Cons.prems(2) by simp
  from save_note_member[OF Cons.prems(1) this, of "sr_content r" "sr_archivedAt r" "sr_now r"]
  have st: "st = 200"
    using s by simp
  have "db_groups d1 groupId = Some grp"
    using save_note_200(1)[OF s[unfolded st]] Cons.prems(1) by simp
  from Cons.IH[OF this] Cons.prems(2) show ?case
    using s st by simp
qed


theorem note_history_after_saves_witness:
  "db_notes db1 ''g1'' = None \<and> db_noteHistory db1 ''g1'' = [] \<and> sample_saves \<noteq> []
   \<and> (\<exists>d'. save_notes db1 ''g1'' sample_saves = Some d'
         \<and> length (db_noteHistory d' ''g1'') = 2
         \<and> map h_content (db_noteHistory d' ''g1'') = [''v1'', ''v2'']
         \<and> (\<exists>n. db_notes d' ''g1'' = Some n \<and> n_content n = ''v3''))"
proof -
  have h: "db_notes db1 ''g1'' = None" "db_noteHistory db1 ''g1'' = []" "sample_saves \<noteq> []"
    by (simp_all add: db1_def sample_saves_def)
  have "list_all (\<lambda>r. isMember sample_group (userId (sr_user r))) sample_saves"
    by (simp add: sample_saves_def alice_fields bob_fields isMember_def sample_group_def)
  from save_notes_members[OF db1_lookups(1) this]
  obtain d' where r: "save_notes db1 ''g1'' sample_saves = Some d'" by blast
  note t = note_history_after_saves[OF h r]
  have l: "length sample_saves - 1 = 2"
    and b: "butlast (map sr_content sample_saves) = [''v1'', ''v2'']"
    and c: "sr_content (last sample_saves) = ''v3''"
    by (simp_all add: sample_saves_def)
  note t1 = t[unfolded l b c, THEN conjunct1]
  note t2 = t[unfolded l b c, THEN conjunct2, THEN conjunct1]
  note t3 = t[unfolded l b c, THEN conjunct2, THEN conjunct2, THEN conjunct2]
  show ?thesis
    apply (insert h r t1 t2 t3)
    apply (intro conjI exI[of _ d'])
          apply assumption+
    done
qed

section \<open>Groups: leaving\<close>

lemma find_member_distinct:
  assumes "distinct (map m_userId ms)" and "find (\<lambda>m. m_userId m = uid) ms = Some e"
  shows "e \<in> set ms" and "m_userId e = uid"
    and "\<And>m. m \<in> set ms \<Longrightarrow> m_userId m = uid \<Longrightarrow> m = e"
proof -
  show e: "e \<in> set ms" and u: "m_userId e = uid"
    using assms(2) by (auto simp: find_Some_iff)
  fix m assume "m \<in> set ms" "m_userId m = uid"
  with e u assms(1) show "m = e"
    by (metis distinct_map inj_on_def)
qed

lemma find_member: "isMember grp uid \<Longrightarrow> \<exists>e. find (\<lambda>m. m_userId m = uid) (g_members grp) = Some e"
  by (cases "find (\<lambda>m. m_userId m = uid) (g_members grp)")
     (auto simp: isMember_def list_ex_iff find_None_iff)

lemma promote_sole_admin:
  assumes "isAdmin e" and "\<not> list_ex isAdmin (r # rs)"
  shows "promote e (r # rs) = r\<lparr> m_role := ''admin'' \<rparr> # rs"
    and "length (filter isAdmin (promote e (r # rs))) = 1"
    and "map m_userId (promote e (r # rs)) = map m_userId (r # rs)"
  using assms
  by (simp_all add: promote_def isAdmin_def list_ex_iff filter_empty_conv)

lemma promote_other:
  assumes "list_ex isAdmin rem \<or> \<not> isAdmin e"
  shows "promote e rem = rem"
  using assms by (auto simp: promote_def isAdmin_def list_ex_iff)

lemma promote_userIds: "map m_userId (promote e rem) = map m_userId rem"
  by (cases rem) (auto simp: promote_def Let_def)

lemma remaining_admin:
  assumes "distinct (map m_userId ms)" and "list_ex isAdmin ms"
    and "find (\<lambda>m. m_userId m = uid) ms = Some e"
    and "\<not> list_ex isAdmin (filter (\<lambda>m. m_userId m \<noteq> uid) ms)"
  shows "isAdmin e"
proof -
  obtain a where a: "a \<in> set ms" "isAdmin a"
    using assms(2) by (auto simp: list_ex_iff)
  with assms(4) have "m_userId a = uid" by (auto simp: list_ex_iff)
  with find_member_distinct(3)[OF assms(1,3) a(1)] a(2) show ?thesis by simp
qed

text \<open>
  C3. A member leaves a group that is well formed (one entry per user, an admin among
  them), and the member's user document exists. The request succeeds. When nobody else
  is left the group document is deleted. Otherwise the group keeps exactly the other
  members, in their order: when none of them is an admin (the leaver was the sole
  admin) the first of them is made admin and is then the only admin; when one of them
  is, their entries are unchanged. In both cases the group that remains has an admin
  and is well formed again.
\<close>

theorem leave_group_keeps_admin:
  assumes "db_groups d groupId = Some grp"
    and "db_users d (userId user) = Some u"
    and "isMember grp (userId user)"
    and "wellFormed grp"
  shows "\<exists>d'. leave_group d user groupId now = (200, d')
    \<and> (case filter (\<lambda>m. m_userId m \<noteq> userId user) (g_members grp) of
          [] \<Rightarrow> db_groups d' groupId = None
        | r # rs \<Rightarrow>
            (\<exists>grp'. db_groups d' groupId = Some grp'
               \<and> list_ex isAdmin (g_members grp')
               \<and> wellFormed grp'
               \<and> map m_userId (g_members grp') = map m_userId (r # rs)
               \<and> g_members grp' =
                    (if list_ex isAdmin (r # rs) then r # rs
                     else r\<lparr> m_role := ''admin'' \<rparr> # rs)
               \<and> (if list_ex isAdmin (r # rs) then True
                    else length (filter isAdmin (g_members grp')) = 1)))"
proof -
  let ?rem = "filter (\<lambda>m. m_userId m \<noteq> userId user) (g_members grp)"
  obtain e where e: "find (\<lambda>m. m_userId m = userId user) (g_members grp) = Some e"
    using find_member[OF assms(3)] by blast
  have dist: "distinct (map m_userId (g_members grp))"
    and adm: "list_ex isAdmin (g_members grp)"
    using assms(4) by (simp_all add: wellFormed_def)
  have drem: "distinct (map m_userId ?rem)"
    using dist by (simp add: distinct_map_filter)
  show ?thesis
  proof (cases ?rem)
    case Nil
    then show ?thesis
      using assms(1,2) e by (simp add: leave_group_def Let_def)
  next
    case (Cons r rs)
    let ?ms = "promote e ?rem"
    let ?grp' = "grp\<lparr> g_members := ?ms, g_updatedAt := now \<rparr>"
    have run: "leave_group d user groupId now =
      (200, d\<lparr> db_groups := (db_groups d)(groupId \<mapsto> ?grp'),
              db_users := (db_users d)(userId user \<mapsto>
                 u\<lparr> u_groups := arrayRemove groupId (u_groups u), u_updatedAt := now \<rparr>) \<rparr>)"
      using assms(1,2) e Cons by (simp add: leave_group_def Let_def)
    have ids: "map m_userId ?ms = map m_userId (r # rs)"
      using promote_userIds[of e ?rem] Cons by simp
    have ms: "?ms = (if list_ex isAdmin (r # rs) then r # rs
                     else r\<lparr> m_role := ''admin'' \<rparr> # rs)"
    proof (cases "list_ex isAdmin (r # rs)")
      case True
      then show ?thesis using promote_other[of ?rem e] Cons by simp
    next
      case False
      then have "isAdmin e"
        using remaining_admin[OF dist adm e] Cons by simp
      then show ?thesis
        using promote_sole_admin(1)[OF _ False, of e] False Cons by simp
    qed
    have one: "\<not> list_ex isAdmin (r # rs) \<Longrightarrow> length (filter isAdmin ?ms) = 1"
    proof -
      assume f: "\<not> list_ex isAdmin (r # rs)"
      then have "isAdmin e"
        using remaining_admin[OF dist adm e] Cons by simp
      from promote_sole_admin(2)[OF this f] show ?thesis using Cons by simp
    qed
    have has: "list_ex isAdmin ?ms"
    proof (cases "list_ex isAdmin (r # rs)")
      case True
      then show ?thesis using ms by simp
    next
      case False
      then show ?thesis using ms by (simp add: isAdmin_def)
    qed
    have wf: "wellFormed ?grp'"
      using has ids drem Cons by (simp add: wellFormed_def)
    show ?thesis
      unfolding run Cons
      using has wf ids ms one by (auto simp: Cons)
  qed
qed

lemma sample_group_wellFormed: "wellFormed sample_group"
  by (simp add: wellFormed_def sample_group_def isAdmin_def)

theorem leave_group_keeps_admin_witness:
  "db_groups db1 ''g1'' = Some sample_group
   \<and> db_users db1 (userId alice) = Some \<lparr> u_groups = [''g1'', ''g2''], u_updatedAt = ''t1'' \<rparr>
   \<and> isMember sample_group (userId alice)
   \<and> wellFormed sample_group
   \<and> (\<exists>d' grp'. leave_group db1 alice ''g1'' ''t9'' = (200, d')
         \<and> db_groups d' ''g1'' = Some grp'
         \<and> list_ex isAdmin (g_members grp')
         \<and> g_members grp' =
              [\<lparr> m_userId = ''u2'', m_email = ''bob@example.org'', m_displayName = ''Bob'',
                 m_role = ''admin'', m_joinedAt = ''t2'' \<rparr>])"
proof -
  have h: "db_groups db1 ''g1'' = Some sample_group"
    "db_users db1 (userId alice) = Some \<lparr> u_groups = [''g1'', ''g2''], u_updatedAt = ''t1'' \<rparr>"
    "isMember sample_group (userId alice)"
    "wellFormed sample_group"
    by (simp_all add: db1_lookups sample_member_alice alice_fields sample_group_wellFormed)
       (simp add: db1_def)
  let ?b = "\<lparr> m_userId = ''u2'', m_email = ''bob@example.org'', m_displayName = ''Bob'',
               m_role = ''member'', m_joinedAt = ''t2'' \<rparr>"
  have rem: "filter (\<lambda>m. m_userId m \<noteq> userId alice) (g_members sample_group) = [?b]"
    by (simp add: sample_group_def alice_fields)
  have na: "list_ex isAdmin [?b] = False"
    by (simp add: isAdmin_def)
  have pr: "?b\<lparr> m_role := ''admin'' \<rparr> =
      \<lparr> m_userId = ''u2'', m_email = ''bob@example.org'', m_displayName = ''Bob'',
        m_role = ''admin'', m_joinedAt = ''t2'' \<rparr>"
    by simp
  note t = leave_group_keeps_admin[OF h, of "''t9''", unfolded rem list.case na if_False pr]
  then obtain d' grp' where r: "leave_group db1 alice ''g1'' ''t9'' = (200, d')"
    "db_groups d' ''g1'' = Some grp'" "list_ex isAdmin (g_members grp')"
    "g_members grp' =
              [\<lparr> m_userId = ''u2'', m_email = ''bob@example.org'', m_displayName = ''Bob'',
                 m_role = ''admin'', m_joinedAt = ''t2'' \<rparr>]"
    by blast
  show ?thesis
    apply (insert h r)
    apply (intro conjI exI[of _ d'] exI[of _ grp'])
           apply assumption+
    done
qed

section \<open>Groups: joining\<close>

lemma not_member_notin:
  "\<not> isMember grp uid \<Longrightarrow> m_userId m = uid \<Longrightarrow> m \<notin> set (g_members grp)"
  by (auto simp: isMember_def list_ex_iff)

lemma join_group_success:
  assumes "db_groups d groupId = Some grp" and "db_users d (userId user) = Some u"
    and "trim raw \<noteq> []"
    and "toUpperCase (g_inviteCode grp) = toUpperCase (trim raw)"
    and "\<not> isMember grp (userId user)"
  shows "join_group d user groupId (Some raw) now =
    (200, d\<lparr> db_groups := (db_groups d)(groupId \<mapsto>
               grp\<lparr> g_members := g_members grp @
                       [\<lparr> m_userId = userId user, m_email = email user,
                          m_displayName = displayName user, m_role = ''member'',
                          m_joinedAt = now \<rparr>],
                     g_updatedAt := now \<rparr>),
            db_users := (db_users d)(userId user \<mapsto>
               u\<lparr> u_groups := arrayUnion groupId (u_groups u), u_updatedAt := now \<rparr>) \<rparr>)"
proof -
  have "\<lparr> m_userId = userId user, m_email = email user, m_displayName = displayName user,
          m_role = ''member'', m_joinedAt = now \<rparr> \<notin> set (g_members grp)"
    using not_member_notin[OF assms(5)] by simp
  then show ?thesis
    using assms by (simp add: join_group_def Let_def arrayUnion_def)
qed

lemma join_group_status:
  assumes "db_groups d groupId = Some grp" and "db_users d (userId user) = Some u"
  shows "fst (join_group d user groupId (Some raw) now) =
    (if trim raw = [] then 400
     else if toUpperCase (g_inviteCode grp) \<noteq> toUpperCase (trim raw) then 400
     else if isMember grp (userId user) then 409
     else 200)"
  using assms join_group_success[OF assms, of raw now]
  by (auto simp: join_group_def Let_def)

lemma join_group_conflict:
  assumes "db_groups d groupId = Some grp" and "isMember grp (userId user)"
    and "trim raw \<noteq> []" and "toUpperCase (g_inviteCode grp) = toUpperCase (trim raw)"
  shows "join_group d user groupId (Some raw) now = (409, d)"
  using assms by (simp add: join_group_def Let_def)

lemma join_group_rejects_member:
  assumes "db_groups d groupId = Some grp" and "isMember grp (userId user)"
  shows "fst (join_group d user groupId code now) \<in> {400, 409}
    \<and> snd (join_group d user groupId code now) = d"
  using assms by (auto simp: join_group_def Let_def split: option.splits)

lemma arrayUnion_mem: "x \<in> set (arrayUnion x xs)"
  by (simp add: arrayUnion_def)

lemma isMember_append:
  "isMember (grp\<lparr> g_members := g_members grp @ [m], g_updatedAt := now \<rparr>) (m_userId m)"
  by (simp add: isMember_def list_ex_iff)

lemma join_group_parts:
  assumes "db_groups d groupId = Some grp" and "db_users d (userId user) = Some u"
  shows "(fst (join_group d user groupId (Some raw) now) = 200) =
           (trim raw \<noteq> [] \<and> toUpperCase (trim raw) = toUpperCase (g_inviteCode grp)
            \<and> \<not> isMember grp (userId user))"
    and "isMember grp (userId user) \<Longrightarrow>
           join_group d user groupId (Some raw) now =
             (if trim raw \<noteq> [] \<and> toUpperCase (trim raw) = toUpperCase (g_inviteCode grp)
              then 409 else 400, d)"
    and "join_group d user groupId (Some raw) now = (200, d') \<Longrightarrow>
           (\<exists>grp' u'. db_groups d' groupId = Some grp' \<and> db_users d' (userId user) = Some u'
              \<and> g_members grp' = g_members grp @
                   [\<lparr> m_userId = userId user, m_email = email user,
                      m_displayName = displayName user, m_role = ''member'',
                      m_joinedAt = now \<rparr>]
              \<and> length (filter (\<lambda>m. m_userId m = userId user) (g_members grp')) = 1
              \<and> groupId \<in> set (u_groups u')
              \<and> join_group d' user groupId (Some raw) now' = (409, d')
              \<and> snd (join_group d' user groupId otherCode now') = d'
              \<and> fst (join_group d' user groupId otherCode now') \<in> {400, 409})"
proof -
  show "(fst (join_group d user groupId (Some raw) now) = 200) =
           (trim raw \<noteq> [] \<and> toUpperCase (trim raw) = toUpperCase (g_inviteCode grp)
            \<and> \<not> isMember grp (userId user))"
    unfolding join_group_status[OF assms] by auto
next
  assume "isMember grp (userId user)"
  then show "join_group d user groupId (Some raw) now =
             (if trim raw \<noteq> [] \<and> toUpperCase (trim raw) = toUpperCase (g_inviteCode grp)
              then 409 else 400, d)"
    using assms(1) by (auto simp: join_group_def Let_def)
next
  assume ok: "join_group d user groupId (Some raw) now = (200, d')"
  then have "fst (join_group d user groupId (Some raw) now) = 200" by simp
  then have c: "trim raw \<noteq> []" "toUpperCase (g_inviteCode grp) = toUpperCase (trim raw)"
    "\<not> isMember grp (userId user)"
    unfolding join_group_status[OF assms] by (auto split: if_splits)
  let ?m = "\<lparr> m_userId = userId user, m_email = email user,
              m_displayName = displayName user, m_role = ''member'', m_joinedAt = now \<rparr>"
  let ?grp' = "grp\<lparr> g_members := g_members grp @ [?m], g_updatedAt := now \<rparr>"
  let ?u' = "u\<lparr> u_groups := arrayUnion groupId (u_groups u), u_updatedAt := now \<rparr>"
  have d': "d' = d\<lparr> db_groups := (db_groups d)(groupId \<mapsto> ?grp'),
                     db_users := (db_users d)(userId user \<mapsto> ?u') \<rparr>"
    using join_group_success[OF assms c, where now = now] ok by simp
  have g: "db_groups d' groupId = Some ?grp'" and us: "db_users d' (userId user) = Some ?u'"
    by (simp_all add: d')
  have mem: "isMember ?grp' (userId user)"
    using isMember_append[where grp = grp and m = ?m and now = now] by simp
  have code: "toUpperCase (g_inviteCode ?grp') = toUpperCase (trim raw)"
    using c(2) by simp
  have none: "filter (\<lambda>m. m_userId m = userId user) (g_members grp) = []"
    using c(3) by (auto simp: isMember_def list_ex_iff filter_empty_conv)
  have once: "length (filter (\<lambda>m. m_userId m = userId user) (g_members ?grp')) = 1"
    using none by simp
  note again = join_group_conflict[OF g mem c(1) code, where now = now']
  note any = join_group_rejects_member[OF g mem, where code = otherCode and now = now']
  show "\<exists>grp' u'. db_groups d' groupId = Some grp' \<and> db_users d' (userId user) = Some u'
              \<and> g_members grp' = g_members grp @ [?m]
              \<and> length (filter (\<lambda>m. m_userId m = userId user) (g_members grp')) = 1
              \<and> groupId \<in> set (u_groups u')
              \<and> join_group d' user groupId (Some raw) now' = (409, d')
              \<and> snd (join_group d' user groupId otherCode now') = d'
              \<and> fst (join_group d' user groupId otherCode now') \<in> {400, 409}"
    apply (intro exI[of _ ?grp'] exI[of _ ?u'] conjI)
    using g us once again any by (simp_all add: arrayUnion_mem)
qed

text \<open>
  C4, as the code has it. For a join request on an existing group by a user whose
  user document exists: it succeeds exactly when the supplied invite code, with the
  white space around it trimmed, is not empty and equals the group's invite code up
  to letter case, and the caller is not a member yet. A caller who is a member gets
  409 Conflict for such a code (and 400 for any other), and the store is unchanged. A
  successful join appends one entry for the caller with role "member" to the member
  list and the group id to the caller's group id list; the caller has exactly one
  entry afterwards, and any further join request of the caller is refused and changes
  nothing, with 409 when the code is valid.
\<close>

theorem join_group_outcome:
  assumes "db_groups d groupId = Some grp" and "db_users d (userId user) = Some u"
  shows "((fst (join_group d user groupId (Some raw) now) = 200) =
           (trim raw \<noteq> [] \<and> toUpperCase (trim raw) = toUpperCase (g_inviteCode grp)
            \<and> \<not> isMember grp (userId user)))
    \<and> (isMember grp (userId user) \<longrightarrow>
           join_group d user groupId (Some raw) now =
             (if trim raw \<noteq> [] \<and> toUpperCase (trim raw) = toUpperCase (g_inviteCode grp)
              then 409 else 400, d))
    \<and> (join_group d user groupId (Some raw) now = (200, d') \<longrightarrow>
           (\<exists>grp' u'. db_groups d' groupId = Some grp' \<and> db_users d' (userId user) = Some u'
              \<and> g_members grp' = g_members grp @
                   [\<lparr> m_userId = userId user, m_email = email user,
                      m_displayName = displayName user, m_role = ''member'',
                      m_joinedAt = now \<rparr>]
              \<and> length (filter (\<lambda>m. m_userId m = userId user) (g_members grp')) = 1
              \<and> groupId \<in> set (u_groups u')
              \<and> join_group d' user groupId (Some raw) now' = (409, d')
              \<and> snd (join_group d' user groupId otherCode now') = d'
              \<and> fst (join_group d' user groupId otherCode now') \<in> {400, 409}))"
  using join_group_parts[OF assms] by blast

lemma padded_code:
  "trim '' 0b7e44d2 '' = ''0b7e44d2''"
  "toUpperCase ''0b7e44d2'' = toUpperCase ''0B7E44D2''"
  "toUpperCase '' 0b7e44d2 '' \<noteq> toUpperCase ''0B7E44D2''"
  by code_simp+

text \<open>
  White space and letter case beyond ASCII: the no-break space is trimmed, and the
  letters of the upper half of the range have their upper case.
\<close>

lemma white_space_and_case_examples:
  "trim (CHR 0xA0 # ''0B7E44D2'') = ''0B7E44D2''"
  "toUpperCase [CHR 0xE9] = [201]"
  "toUpperCase [CHR 0xDF] = [83, 83]"
  "toUpperCase [CHR 0xB5] = [924]"
  "toUpperCase [CHR 0xFF] = [376]"
  "toUpperCase [CHR 0xF7] = [247]"
  by code_simp+

lemma db1_users:
  "db_users db1 ''u1'' = Some \<lparr> u_groups = [''g1'', ''g2''], u_updatedAt = ''t1'' \<rparr>"
  "db_users db1 ''u2'' = Some \<lparr> u_groups = [''g1''], u_updatedAt = ''t2'' \<rparr>"
  by (simp_all add: db1_def)

lemma bob_not_in_other_group: "\<not> isMember other_group ''u2''"
  by (simp add: isMember_def other_group_def)

theorem join_group_outcome_witness:
  "db_groups db1 ''g2'' = Some other_group
   \<and> db_users db1 (userId bob) = Some \<lparr> u_groups = [''g1''], u_updatedAt = ''t2'' \<rparr>
   \<and> (\<exists>d' grp' u'. join_group db1 bob ''g2'' (Some '' 0b7e44d2 '') ''t9'' = (200, d')
         \<and> db_groups d' ''g2'' = Some grp' \<and> db_users d' (userId bob) = Some u'
         \<and> length (filter (\<lambda>m. m_userId m = userId bob) (g_members grp')) = 1
         \<and> ''g2'' \<in> set (u_groups u')
         \<and> join_group d' bob ''g2'' (Some '' 0b7e44d2 '') ''t10'' = (409, d'))"
proof -
  have h: "db_groups db1 ''g2'' = Some other_group"
    "db_users db1 (userId bob) = Some \<lparr> u_groups = [''g1''], u_updatedAt = ''t2'' \<rparr>"
    by (simp_all add: db1_lookups db1_users bob_fields)
  have cond: "trim '' 0b7e44d2 '' \<noteq> [] \<and>
      toUpperCase (trim '' 0b7e44d2 '') = toUpperCase (g_inviteCode other_group) \<and>
      \<not> isMember other_group (userId bob)"
    by (simp add: padded_code bob_fields other_group_def isMember_def)
  obtain st d' where r: "join_group db1 bob ''g2'' (Some '' 0b7e44d2 '') ''t9'' = (st, d')"
    by (cases "join_group db1 bob ''g2'' (Some '' 0b7e44d2 '') ''t9''") blast
  note t = join_group_outcome[OF h, where raw = "'' 0b7e44d2 ''" and now = "''t9''"
      and d' = d' and now' = "''t10''" and otherCode = "Some '' 0b7e44d2 ''"]
  have "st = 200"
    using t[THEN conjunct1] cond r by simp
  with r have r': "join_group db1 bob ''g2'' (Some '' 0b7e44d2 '') ''t9'' = (200, d')"
    by simp
  from t[THEN conjunct2, THEN conjunct2, THEN mp, OF r']
  obtain grp' u' where g: "db_groups d' ''g2'' = Some grp'" "db_users d' (userId bob) = Some u'"
    "length (filter (\<lambda>m. m_userId m = userId bob) (g_members grp')) = 1"
    "''g2'' \<in> set (u_groups u')"
    "join_group d' bob ''g2'' (Some '' 0b7e44d2 '') ''t10'' = (409, d')"
    by blast
  show ?thesis
    apply (insert h r' g)
    apply (intro conjI exI[of _ d'] exI[of _ grp'] exI[of _ u'])
           apply assumption+
    done
qed

lemma join_group_no_break_space:
  "fst (join_group db1 bob ''g2'' (Some (CHR 0xA0 # ''0B7E44D2'')) ''t9'') = 200"
  by (simp add: join_group_status[OF db1_lookups(2) db1_users(2)[folded bob_fields(1)]]
      white_space_and_case_examples bob_fields bob_not_in_other_group)
     (simp add: other_group_def)

text \<open>
  The claim as the specification words it fails for a code sent with white space around
  it: Bob, who is no member of the second group, joins it with such a code, which does
  not equal the group's code up to letter case.
\<close>

theorem join_group_padded_code_counterexample:
  "db_groups db1 ''g2'' = Some other_group
   \<and> \<not> isMember other_group (userId bob)
   \<and> toUpperCase '' 0b7e44d2 '' \<noteq> toUpperCase (g_inviteCode other_group)
   \<and> fst (join_group db1 bob ''g2'' (Some '' 0b7e44d2 '') ''t9'') = 200"
proof -
  have "toUpperCase (g_inviteCode other_group) = toUpperCase ''0B7E44D2''"
    by (simp add: other_group_def)
  then show ?thesis
    by (simp add: join_group_status[OF db1_lookups(2) db1_users(2)[folded bob_fields(1)]]
        padded_code bob_fields bob_not_in_other_group db1_lookups)
qed

text \<open>The routes keep group documents well formed.\<close>

lemma create_group_wellFormed:
  "create_group d user name description newId uuid now = (201, Some g, d') \<Longrightarrow> wellFormed g"
  by (auto simp: create_group_def Let_def wellFormed_def isAdmin_def
      split: option.splits if_splits)

lemma join_group_wellFormed:
  assumes "db_groups d groupId = Some grp" and "wellFormed grp"
    and "join_group d user groupId code now = (st, d')"
    and "db_groups d' groupId = Some grp'"
  shows "wellFormed grp'"
proof (cases "db_groups d' = db_groups d")
  case True
  then show ?thesis using assms by simp
next
  case False
  then have nm: "\<not> isMember grp (userId user)"
    and g: "grp' = grp\<lparr> g_members := arrayUnion \<lparr> m_userId = userId user, m_email = email user,
                      m_displayName = displayName user, m_role = ''member'',
                      m_joinedAt = now \<rparr> (g_members grp), g_updatedAt := now \<rparr>"
    using assms(1,3,4)
    by (auto simp: join_group_def Let_def split: option.splits if_splits)
  have "userId user \<notin> set (map m_userId (g_members grp))"
    using nm by (auto simp: isMember_def list_ex_iff)
  then show ?thesis
    using assms(2) unfolding g wellFormed_def arrayUnion_def
    by (auto simp: list_ex_iff)
qed

section \<open>Real-time events on a connection without identity\<close>

text \<open>
  C6, as the code has it. On a connection that carries no identity, \<open>join_group\<close> and
  \<open>send_message\<close> are answered with one error event, "Authentication required.", sent
  to that connection; \<open>typing\<close> and \<open>stop_typing\<close> are dropped without any event. In
  all four cases the store, the rooms, the presence map and the connection (its id, its
  joined groups) are left as they were: nothing privileged happens and the connection
  stays.
\<close>

theorem unauthenticated_events:
  assumes "s_user sock = None"
  shows "on_join_group sv sock groupIdField =
           (sv, sock, [(ToSocket (s_id sock), ErrorEvent ''Authentication required.'')])
    \<and> on_send_message sv sock groupIdField textField newId now =
           (sv, sock, [(ToSocket (s_id sock), ErrorEvent ''Authentication required.'')])
    \<and> on_typing sv sock groupIdField = (sv, sock, [])
    \<and> on_stop_typing sv sock groupIdField = (sv, sock, [])"
  using assms
  by (simp add: on_join_group_def on_send_message_def on_typing_def on_stop_typing_def)

theorem unauthenticated_events_witness:
  "s_user anon_socket = None
   \<and> on_join_group sv0 anon_socket (Some ''g1'') =
        (sv0, anon_socket, [(ToSocket ''s9'', ErrorEvent ''Authentication required.'')])
   \<and> on_send_message sv0 anon_socket (Some ''g1'') (Some ''hi'') ''m9'' ''t9'' =
        (sv0, anon_socket, [(ToSocket ''s9'', ErrorEvent ''Authentication required.'')])
   \<and> on_typing sv0 anon_socket (Some ''g1'') = (sv0, anon_socket, [])
   \<and> on_stop_typing sv0 anon_socket (Some ''g1'') = (sv0, anon_socket, [])"
proof -
  have h: "s_user anon_socket = None" by (simp add: anon_socket_def)
  have i: "s_id anon_socket = ''s9''" by (simp add: anon_socket_def)
  show ?thesis
    using h unauthenticated_events[OF h, of sv0 "Some ''g1''" "Some ''hi''" "''m9''" "''t9''"]
    unfolding i by simp
qed

text \<open>
  The claim as the specification words it fails for the typing events: on a connection
  without identity they produce no event at all, so no error event either.
\<close>

theorem typing_silent_drop_counterexample:
  "s_user anon_socket = None
   \<and> \<not> (\<exists>msg. (ToSocket (s_id anon_socket), ErrorEvent msg)
            \<in> set (snd (snd (on_typing sv0 anon_socket (Some ''g1'')))))
   \<and> \<not> (\<exists>msg. (ToSocket (s_id anon_socket), ErrorEvent msg)
            \<in> set (snd (snd (on_stop_typing sv0 anon_socket (Some ''g1'')))))"
  by (simp add: anon_socket_def on_typing_def on_stop_typing_def)

section \<open>Presence: the roster is keyed by user id\<close>


lemma getOnlineUsers_inner: "getOnlineUsers r g = map snd (inner r g)"
  by (simp add: getOnlineUsers_def inner_def split: option.splits)

lemma inner_remove_same:
  "inner (removeOnlineUser r g uo) g =
     (case uo of None \<Rightarrow> inner r g | Some u \<Rightarrow> AList.delete u (inner r g))"
  by (auto simp: removeOnlineUser_def inner_def Let_def AList.update_conv' AList.delete_conv'
      split: option.splits)

lemma inner_remove_other:
  "g' \<noteq> g \<Longrightarrow> inner (removeOnlineUser r g' uo) g = inner r g"
  by (auto simp: removeOnlineUser_def inner_def Let_def AList.update_conv' AList.delete_conv'
      split: option.splits)

lemma inner_add_same:
  "inner (addOnlineUser r g ui) g = AList.update (ui_userId ui) ui (inner r g)"
  by (simp add: addOnlineUser_def inner_def Let_def AList.update_conv')

lemma inner_add_other:
  "g' \<noteq> g \<Longrightarrow> inner (addOnlineUser r g' ui) g = inner r g"
  by (simp add: addOnlineUser_def inner_def Let_def AList.update_conv')

lemma set_delete_subset: "set (AList.delete k al) \<subseteq> set al"
  by (auto simp: AList.delete_eq)

lemma set_update_subset: "set (AList.update k v al) \<subseteq> insert (k, v) (set al)"
  by (induction al) auto

lemma update_mem: "(k, v) \<in> set (AList.update k v al)"
  by (induction al) auto


lemma roster_ok_iff: "roster_ok r = (\<forall>(g, m) \<in> set r. entries_ok m)"
  by (auto simp: roster_ok_def entries_ok_def list_all_iff)

lemma roster_ok_inner: "roster_ok r \<Longrightarrow> entries_ok (inner r g)"
  by (auto simp: roster_ok_iff inner_def entries_ok_def split: option.splits
      dest!: map_of_SomeD)

lemma entries_ok_delete: "entries_ok m \<Longrightarrow> entries_ok (AList.delete u m)"
  using set_delete_subset[of u m] by (auto simp: entries_ok_def list_all_iff)

lemma entries_ok_update: "entries_ok m \<Longrightarrow> ui_userId v = k \<Longrightarrow> entries_ok (AList.update k v m)"
  using set_update_subset[of k v m] by (auto simp: entries_ok_def list_all_iff)

lemma roster_ok_update:
  "roster_ok r \<Longrightarrow> entries_ok m \<Longrightarrow> roster_ok (AList.update g m r)"
  using set_update_subset[of g m r] by (auto simp: roster_ok_iff)

lemma roster_ok_delete: "roster_ok r \<Longrightarrow> roster_ok (AList.delete g r)"
  using set_delete_subset[of g r] by (auto simp: roster_ok_iff)

lemma roster_ok_remove: "roster_ok r \<Longrightarrow> roster_ok (removeOnlineUser r g uo)"
proof -
  assume ok: "roster_ok r"
  show ?thesis
  proof (cases "map_of r g")
    case None
    then show ?thesis using ok by (simp add: removeOnlineUser_def)
  next
    case (Some m)
    then have m: "entries_ok m" using roster_ok_inner[OF ok, of g] by (simp add: inner_def)
    then have "entries_ok (case uo of None \<Rightarrow> m | Some u \<Rightarrow> AList.delete u m)"
      by (simp add: entries_ok_delete split: option.splits)
    then show ?thesis
      using ok Some by (simp add: removeOnlineUser_def Let_def roster_ok_update roster_ok_delete)
  qed
qed

lemma roster_ok_add:
  "roster_ok r \<Longrightarrow> roster_ok (addOnlineUser r g ui)"
  unfolding addOnlineUser_def Let_def
  by (intro roster_ok_update entries_ok_update)
     (auto simp: entries_ok_def dest: roster_ok_inner[of r g, unfolded inner_def entries_ok_def]
        split: option.splits)

lemma ids_after_remove:
  assumes "roster_ok r"
  shows "u \<notin> set (onlineUserIds (removeOnlineUser r g (Some u)) g)"
proof -
  have ok: "\<forall>x \<in> set (inner r g). ui_userId (snd x) = fst x"
    using roster_ok_inner[OF assms, of g] by (auto simp: entries_ok_def list_all_iff)
  have "\<forall>x \<in> set (AList.delete u (inner r g)). fst x \<noteq> u"
    by (auto simp: AList.delete_eq)
  with ok set_delete_subset[of u "inner r g"]
  have "\<forall>x \<in> set (AList.delete u (inner r g)). ui_userId (snd x) \<noteq> u"
    by (metis subsetD)
  then show ?thesis
    unfolding onlineUserIds_def getOnlineUsers_inner inner_remove_same
    by (simp add: image_iff) blast
qed

lemma ids_remove_mono:
  "set (onlineUserIds (removeOnlineUser r g' uo) g) \<subseteq> set (onlineUserIds r g)"
proof (cases "g' = g")
  case True
  then show ?thesis
    using set_delete_subset[of _ "inner r g"]
    by (auto simp: onlineUserIds_def getOnlineUsers_inner inner_remove_same
        split: option.splits)
next
  case False
  then show ?thesis
    by (simp add: onlineUserIds_def getOnlineUsers_inner inner_remove_other)
qed

lemma ids_after_add:
  "ui_userId ui \<in> set (onlineUserIds (addOnlineUser r g ui) g)"
  using update_mem[of "ui_userId ui" ui "inner r g"]
  by (force simp: onlineUserIds_def getOnlineUsers_inner inner_add_same)

lemma disconnect_groups_roster:
  assumes "s_user sock = Some user"
  shows "roster_ok r \<Longrightarrow> disconnect_groups r sock gs = (r', es) \<Longrightarrow>
    roster_ok r'
    \<and> set (onlineUserIds r' g) \<subseteq> set (onlineUserIds r g)
    \<and> (g \<in> set gs \<longrightarrow> userId user \<notin> set (onlineUserIds r' g)
          \<and> (ToRoom g, UserLeft (Some (userId user)) (Some (displayName user))) \<in> set es)"
proof (induction gs arbitrary: r r' es)
  case Nil
  then show ?case by simp
next
  case (Cons x gs)
  let ?r1 = "removeOnlineUser r x (Some (userId user))"
  obtain r2 es2 where rest: "disconnect_groups ?r1 sock gs = (r2, es2)"
    by (cases "disconnect_groups ?r1 sock gs") blast
  have r': "r' = r2" and es: "es = (ToRoom x, UserLeft (Some (userId user))
      (Some (displayName user))) # es2"
    using Cons.prems(2) rest assms by (simp_all add: Let_def)
  have ok1: "roster_ok ?r1" by (rule roster_ok_remove[OF Cons.prems(1)])
  note ih = Cons.IH[OF ok1 rest]
  have A: "roster_ok r'" using ih r' by simp
  have B: "set (onlineUserIds r' g) \<subseteq> set (onlineUserIds r g)"
    using ih ids_remove_mono[of r x "Some (userId user)" g] r' by blast
  have C: "userId user \<notin> set (onlineUserIds r' g)" if "g \<in> set (x # gs)"
  proof (cases "g = x")
    case True
    then show ?thesis
      using ids_after_remove[OF Cons.prems(1), of "userId user" x] ih r' by blast
  next
    case False
    with that have "g \<in> set gs" by simp
    then show ?thesis using ih r' by simp
  qed
  have D: "(ToRoom g, UserLeft (Some (userId user)) (Some (displayName user))) \<in> set es"
    if "g \<in> set (x # gs)"
    using that ih es by auto
  show ?case using A B C D by blast
qed

lemma on_join_group_member:
  assumes "db_groups (sv_db sv) groupId = Some grp" and "isMember grp (userId user)"
    and "groupId \<noteq> []" and "s_user sock = Some user"
  shows "on_join_group sv sock (Some groupId) =
    (sv\<lparr> sv_rooms := (sv_rooms sv)(groupId := insert (s_id sock) (sv_rooms sv groupId)),
         sv_onlineUsers := addOnlineUser (sv_onlineUsers sv) groupId
            \<lparr> ui_userId = userId user, ui_displayName = displayName user,
              ui_socketId = s_id sock \<rparr> \<rparr>,
     sock\<lparr> s_joinedGroups := arrayUnion groupId (s_joinedGroups sock) \<rparr>,
     [(ToRoomExcept groupId (s_id sock), UserJoined (userId user) (displayName user)),
      (ToSocket (s_id sock),
         OnlineUsers groupId
           (getOnlineUsers (addOnlineUser (sv_onlineUsers sv) groupId
              \<lparr> ui_userId = userId user, ui_displayName = displayName user,
                ui_socketId = s_id sock \<rparr>) groupId))])"
  using assms by (simp add: on_join_group_def Let_def)

lemma on_leave_group_result:
  assumes "groupId \<noteq> []" and "s_user sock = Some user"
  shows "on_leave_group sv sock (Some groupId) =
    (sv\<lparr> sv_rooms := (sv_rooms sv)(groupId := sv_rooms sv groupId - {s_id sock}),
         sv_onlineUsers := removeOnlineUser (sv_onlineUsers sv) groupId (Some (userId user)) \<rparr>,
     sock\<lparr> s_joinedGroups := arrayRemove groupId (s_joinedGroups sock) \<rparr>,
     [(ToRoomExcept groupId (s_id sock),
         UserLeft (Some (userId user)) (Some (displayName user)))])"
  using assms by (simp add: on_leave_group_def)

text \<open>
  One connection of a user goes, by leaving the room or by disconnecting, while another
  connection is in the room.
\<close>

lemma one_connection_goes:
  assumes "roster_ok (sv_onlineUsers sv)" and "s_user x = Some user" and "groupId \<noteq> []"
    and "s_id y \<in> sv_rooms sv groupId" and "s_id x \<noteq> s_id y"
  shows "case on_leave_group sv x (Some groupId) of (sv', x', es) \<Rightarrow>
          userId user \<notin> set (onlineUserIds (sv_onlineUsers sv') groupId)
          \<and> es = [(ToRoomExcept groupId (s_id x),
                     UserLeft (Some (userId user)) (Some (displayName user)))]
          \<and> s_id y \<in> sv_rooms sv' groupId"
    and "groupId \<in> set (s_joinedGroups x) \<Longrightarrow>
         case on_disconnect sv x of (sv', x', es) \<Rightarrow>
          userId user \<notin> set (onlineUserIds (sv_onlineUsers sv') groupId)
          \<and> (ToRoom groupId, UserLeft (Some (userId user)) (Some (displayName user)))
                \<in> set es
          \<and> s_id y \<in> sv_rooms sv' groupId"
proof -
  show "case on_leave_group sv x (Some groupId) of (sv', x', es) \<Rightarrow>
          userId user \<notin> set (onlineUserIds (sv_onlineUsers sv') groupId)
          \<and> es = [(ToRoomExcept groupId (s_id x),
                     UserLeft (Some (userId user)) (Some (displayName user)))]
          \<and> s_id y \<in> sv_rooms sv' groupId"
    unfolding on_leave_group_result[OF assms(3,2)]
    using ids_after_remove[OF assms(1), of "userId user" groupId] assms(4,5)
    by simp
next
  assume g: "groupId \<in> set (s_joinedGroups x)"
  obtain r' es where dg:
    "disconnect_groups (sv_onlineUsers sv) x (s_joinedGroups x) = (r', es)"
    by (cases "disconnect_groups (sv_onlineUsers sv) x (s_joinedGroups x)") blast
  note dr = disconnect_groups_roster[OF assms(2,1) dg, of groupId]
  show "case on_disconnect sv x of (sv', x', es) \<Rightarrow>
          userId user \<notin> set (onlineUserIds (sv_onlineUsers sv') groupId)
          \<and> (ToRoom groupId, UserLeft (Some (userId user)) (Some (displayName user)))
                \<in> set es
          \<and> s_id y \<in> sv_rooms sv' groupId"
    using dr g assms(4,5) by (simp add: on_disconnect_def dg)
qed

text \<open>
  The state after a member of a group has joined the group's room from two different
  connections, one after the other.
\<close>

lemma both_joined:
  assumes "db_groups (sv_db sv) groupId = Some grp" and "isMember grp (userId user)"
    and "groupId \<noteq> []"
    and "s_user a = Some user" and "s_user b = Some user"
    and "roster_ok (sv_onlineUsers sv)"
    and "on_join_group sv a (Some groupId) = (sv1, a1, es1)"
    and "on_join_group sv1 b (Some groupId) = (sv2, b2, es2)"
  shows "roster_ok (sv_onlineUsers sv2)"
    and "s_user a1 = Some user" and "s_user b2 = Some user"
    and "s_id a1 = s_id a" and "s_id b2 = s_id b"
    and "s_id a \<in> sv_rooms sv2 groupId" and "s_id b \<in> sv_rooms sv2 groupId"
    and "groupId \<in> set (s_joinedGroups a1)" and "groupId \<in> set (s_joinedGroups b2)"
    and "userId user \<in> set (onlineUserIds (sv_onlineUsers sv2) groupId)"
proof -
  let ?ui = "\<lambda>s. \<lparr> ui_userId = userId user, ui_displayName = displayName user,
                    ui_socketId = s_id s \<rparr>"
  have j1: "sv_db sv1 = sv_db sv"
    "sv_rooms sv1 = (sv_rooms sv)(groupId := insert (s_id a) (sv_rooms sv groupId))"
    "sv_onlineUsers sv1 = addOnlineUser (sv_onlineUsers sv) groupId (?ui a)"
    "a1 = a\<lparr> s_joinedGroups := arrayUnion groupId (s_joinedGroups a) \<rparr>"
    using assms(7) unfolding on_join_group_member[OF assms(1,2,3,4)] by auto
  have g1: "db_groups (sv_db sv1) groupId = Some grp" using assms(1) j1(1) by simp
  have j2: "sv_rooms sv2 = (sv_rooms sv1)(groupId := insert (s_id b) (sv_rooms sv1 groupId))"
    "sv_onlineUsers sv2 = addOnlineUser (sv_onlineUsers sv1) groupId (?ui b)"
    "b2 = b\<lparr> s_joinedGroups := arrayUnion groupId (s_joinedGroups b) \<rparr>"
    using assms(8) unfolding on_join_group_member[OF g1 assms(2,3,5)] by auto
  show "roster_ok (sv_onlineUsers sv2)"
    unfolding j2(2) j1(3) by (intro roster_ok_add assms(6))
  show "s_user a1 = Some user" "s_id a1 = s_id a" "groupId \<in> set (s_joinedGroups a1)"
    using assms(4) by (simp_all add: j1(4) arrayUnion_def)
  show "s_user b2 = Some user" "s_id b2 = s_id b" "groupId \<in> set (s_joinedGroups b2)"
    using assms(5) by (simp_all add: j2(3) arrayUnion_def)
  show "userId user \<in> set (onlineUserIds (sv_onlineUsers sv2) groupId)"
    unfolding j2(2) using ids_after_add[of "?ui b" "sv_onlineUsers sv1" groupId] by simp
  show "s_id a \<in> sv_rooms sv2 groupId" "s_id b \<in> sv_rooms sv2 groupId"
    by (simp_all add: j2(1) j1(2))
qed

text \<open>
  C9. Two different connections of one user are both joined to the room of a group:
  both are in the room and both count the group among their joined groups. When either
  of them leaves the room, or disconnects, the user's id is no longer on the online list
  of the group and a \<open>user_left\<close> event for the user goes to the room (to the others in
  it on a leave, to the whole room on a disconnect), although the other connection is
  still in the room. The presence map is in the shape \<open>addOnlineUser\<close> keeps it in.
\<close>

theorem roster_entry_removed_with_other_connection_joined:
  assumes "roster_ok (sv_onlineUsers sv)"
    and "s_user a = Some user" and "s_user b = Some user" and "s_id a \<noteq> s_id b"
    and "groupId \<noteq> []"
    and "s_id a \<in> sv_rooms sv groupId" and "s_id b \<in> sv_rooms sv groupId"
    and "groupId \<in> set (s_joinedGroups a)" and "groupId \<in> set (s_joinedGroups b)"
  shows "(case on_leave_group sv a (Some groupId) of (sv', a', es) \<Rightarrow>
            userId user \<notin> set (onlineUserIds (sv_onlineUsers sv') groupId)
            \<and> es = [(ToRoomExcept groupId (s_id a),
                       UserLeft (Some (userId user)) (Some (displayName user)))]
            \<and> s_id b \<in> sv_rooms sv' groupId)
    \<and> (case on_disconnect sv a of (sv', a', es) \<Rightarrow>
            userId user \<notin> set (onlineUserIds (sv_onlineUsers sv') groupId)
            \<and> (ToRoom groupId, UserLeft (Some (userId user)) (Some (displayName user)))
                  \<in> set es
            \<and> s_id b \<in> sv_rooms sv' groupId)
    \<and> (case on_leave_group sv b (Some groupId) of (sv', b', es) \<Rightarrow>
            userId user \<notin> set (onlineUserIds (sv_onlineUsers sv') groupId)
            \<and> es = [(ToRoomExcept groupId (s_id b),
                       UserLeft (Some (userId user)) (Some (displayName user)))]
            \<and> s_id a \<in> sv_rooms sv' groupId)
    \<and> (case on_disconnect sv b of (sv', b', es) \<Rightarrow>
            userId user \<notin> set (onlineUserIds (sv_onlineUsers sv') groupId)
            \<and> (ToRoom groupId, UserLeft (Some (userId user)) (Some (displayName user)))
                  \<in> set es
            \<and> s_id a \<in> sv_rooms sv' groupId)"
  using one_connection_goes(1)[OF assms(1,2,5,7,4)]
    one_connection_goes(2)[OF assms(1,2,5,7,4,8)]
    one_connection_goes(1)[OF assms(1,3,5,6) assms(4)[symmetric]]
    one_connection_goes(2)[OF assms(1,3,5,6) assms(4)[symmetric] assms(9)]
  by (intro conjI)

lemma alice_socket_fields:
  "s_user (alice_socket sid) = Some alice" "s_id (alice_socket sid) = sid"
  by (simp_all add: alice_socket_def)

theorem roster_entry_removed_with_other_connection_joined_witness:
  "\<exists>sv1 a1 es1 sv2 b2 es2.
     on_join_group sv0 (alice_socket ''s1'') (Some ''g1'') = (sv1, a1, es1)
     \<and> on_join_group sv1 (alice_socket ''s2'') (Some ''g1'') = (sv2, b2, es2)
     \<and> roster_ok (sv_onlineUsers sv2)
     \<and> s_user a1 = Some alice \<and> s_user b2 = Some alice \<and> s_id a1 \<noteq> s_id b2
     \<and> ''g1'' \<noteq> []
     \<and> s_id a1 \<in> sv_rooms sv2 ''g1'' \<and> s_id b2 \<in> sv_rooms sv2 ''g1''
     \<and> ''g1'' \<in> set (s_joinedGroups a1) \<and> ''g1'' \<in> set (s_joinedGroups b2)
     \<and> ''u1'' \<in> set (onlineUserIds (sv_onlineUsers sv2) ''g1'')
     \<and> (case on_leave_group sv2 a1 (Some ''g1'') of (sv3, a3, es3) \<Rightarrow>
           ''u1'' \<notin> set (onlineUserIds (sv_onlineUsers sv3) ''g1'')
           \<and> es3 = [(ToRoomExcept ''g1'' ''s1'', UserLeft (Some ''u1'') (Some ''Alice''))]
           \<and> ''s2'' \<in> sv_rooms sv3 ''g1'')
     \<and> (case on_disconnect sv2 a1 of (sv3, a3, es3) \<Rightarrow>
           ''u1'' \<notin> set (onlineUserIds (sv_onlineUsers sv3) ''g1'')
           \<and> (ToRoom ''g1'', UserLeft (Some ''u1'') (Some ''Alice'')) \<in> set es3
           \<and> ''s2'' \<in> sv_rooms sv3 ''g1'')
     \<and> (case on_leave_group sv2 b2 (Some ''g1'') of (sv3, b3, es3) \<Rightarrow>
           ''u1'' \<notin> set (onlineUserIds (sv_onlineUsers sv3) ''g1'')
           \<and> es3 = [(ToRoomExcept ''g1'' ''s2'', UserLeft (Some ''u1'') (Some ''Alice''))]
           \<and> ''s1'' \<in> sv_rooms sv3 ''g1'')
     \<and> (case on_disconnect sv2 b2 of (sv3, b3, es3) \<Rightarrow>
           ''u1'' \<notin> set (onlineUserIds (sv_onlineUsers sv3) ''g1'')
           \<and> (ToRoom ''g1'', UserLeft (Some ''u1'') (Some ''Alice'')) \<in> set es3
           \<and> ''s1'' \<in> sv_rooms sv3 ''g1'')"
proof -
  have h: "db_groups (sv_db sv0) ''g1'' = Some sample_group"
    "isMember sample_group (userId alice)"
    "''g1'' \<noteq> []"
    "s_user (alice_socket ''s1'') = Some alice" "s_user (alice_socket ''s2'') = Some alice"
    "roster_ok (sv_onlineUsers sv0)"
    by (simp_all add: sv0_def db1_lookups alice_fields sample_member_alice
        alice_socket_fields roster_ok_def)
  obtain sv1 a1 es1 where j1:
    "on_join_group sv0 (alice_socket ''s1'') (Some ''g1'') = (sv1, a1, es1)"
    by (cases "on_join_group sv0 (alice_socket ''s1'') (Some ''g1'')") blast
  obtain sv2 b2 es2 where j2:
    "on_join_group sv1 (alice_socket ''s2'') (Some ''g1'') = (sv2, b2, es2)"
    by (cases "on_join_group sv1 (alice_socket ''s2'') (Some ''g1'')") blast
  note s = both_joined[OF h j1 j2, unfolded alice_socket_fields alice_fields]
  have ia: "s_id a1 = ''s1''" and ib: "s_id b2 = ''s2''" using s(4,5) by simp_all
  have ne: "s_id a1 \<noteq> s_id b2" by (simp add: ia ib)
  have ra: "s_id a1 \<in> sv_rooms sv2 ''g1''" and rb: "s_id b2 \<in> sv_rooms sv2 ''g1''"
    using s(6,7) by (simp_all add: ia ib)
  note t = roster_entry_removed_with_other_connection_joined[OF s(1,2,3) ne h(3) ra rb s(8,9),
      unfolded alice_fields ia ib]
  note t1 = t[THEN conjunct1]
  note t2 = t[THEN conjunct2, THEN conjunct1]
  note t3 = t[THEN conjunct2, THEN conjunct2, THEN conjunct1]
  note t4 = t[THEN conjunct2, THEN conjunct2, THEN conjunct2]
  show ?thesis
    apply (rule exI[of _ sv1], rule exI[of _ a1], rule exI[of _ es1])
    apply (rule exI[of _ sv2], rule exI[of _ b2], rule exI[of _ es2])
    apply (insert j1 j2 s(1,2,3) ne h(3) ra rb s(8,9,10) t1 t2 t3 t4)
    apply (intro conjI)
                   apply assumption+
    done
qed

section \<open>Posting a message: the request path and the real-time path\<close>

text \<open>
  For a member of the group the two paths agree: the same text is refused, or the
  same message document is stored under the server's id and sent to the group's room.
\<close>

lemma trim_idem: "trim (trim s) = trim s"
proof -
  let ?t = "dropWhile isWhitespace s"
  let ?u = "rev (dropWhile isWhitespace (rev ?t))"
  have split: "?t = ?u @ rev (takeWhile isWhitespace (rev ?t))"
    by (metis rev_append rev_rev_ident takeWhile_dropWhile_id)
  have "dropWhile isWhitespace ?u = ?u"
  proof (cases "?u = []")
    case True
    show ?thesis by (simp only: True dropWhile.simps)
  next
    case False
    then have "hd ?u = hd ?t" using split by (metis hd_append2)
    moreover have "?t \<noteq> []" using False split by (metis Nil_is_append_conv)
    then have "\<not> isWhitespace (hd ?t)" by (rule hd_dropWhile)
    ultimately show ?thesis by (simp add: dropWhile_eq_self_iff)
  qed
  then show ?thesis by (simp add: trim_def)
qed

lemma send_message_agrees_for_members:
  assumes "s_user sock = Some user" and "groupId \<noteq> []"
    and "db_groups (sv_db sv) groupId = Some grp" and "isMember grp (userId user)"
  shows "case post_message (sv_db sv) user groupId textField newId now of (st, d', es) \<Rightarrow>
      (st = 201 \<and>
         on_send_message sv sock (Some groupId) textField newId now = (sv\<lparr> sv_db := d' \<rparr>, sock, es))
      \<or> (st = 400 \<and> d' = sv_db sv \<and> es = [] \<and>
           fst (on_send_message sv sock (Some groupId) textField newId now) = sv \<and>
           (\<exists>m. snd (on_send_message sv sock (Some groupId) textField newId now) =
                  (sock, [(ToSocket (s_id sock), ErrorEvent m)])))"
  using assms requireGroupMembership_member[OF assms(3,4)]
  by (cases textField)
     (auto simp: post_message_def on_send_message_def falsy_def Let_def trim_idem)

lemma trim_hi: "trim ''hi'' = ''hi''"
  by code_simp

lemma bob_socket_fields: "s_user bob_socket = Some bob" "s_id bob_socket = ''s3''"
  by (simp_all add: bob_socket_def)

text \<open>
  C1. The real-time path does not require membership. Bob, authenticated but no
  member of the second group, is refused with 403 by the request path and the store
  stays as it was; the same post through \<open>send_message\<close> is stored and sent to the
  room of that group.
\<close>

theorem send_message_skips_membership:
  "db_groups db1 ''g2'' = Some other_group
   \<and> \<not> isMember other_group (userId bob)
   \<and> post_message db1 bob ''g2'' (Some ''hi'') ''m9'' ''t9'' = (403, db1, [])
   \<and> (\<exists>sv' msg.
         on_send_message sv0 bob_socket (Some ''g2'') (Some ''hi'') ''m9'' ''t9''
           = (sv', bob_socket, [(ToRoom ''g2'', NewMessage msg)])
         \<and> map_of (db_messages (sv_db sv')) ''m9'' = Some msg
         \<and> msg_groupId msg = ''g2'' \<and> msg_senderId msg = ''u2'' \<and> msg_text msg = ''hi'')"
proof -
  have nm: "\<not> isMember other_group (userId bob)"
    by (simp add: bob_fields bob_not_in_other_group)
  have "requireGroupMembership db1 ''g2'' (userId bob) = Inl 403"
    using nm by (simp add: requireGroupMembership_def db1_lookups)
  then have rest: "post_message db1 bob ''g2'' (Some ''hi'') ''m9'' ''t9'' = (403, db1, [])"
    by (simp add: post_message_def trim_hi Let_def)
  let ?msg = "\<lparr> msg_messageId = ''m9'', msg_groupId = ''g2'', msg_senderId = ''u2'',
      msg_senderEmail = ''bob@example.org'', msg_senderName = ''Bob'', msg_text = ''hi'',
      msg_createdAt = ''t9'', msg_updatedAt = ''t9'' \<rparr>"
  let ?sv' = "sv0\<lparr> sv_db := (sv_db sv0)\<lparr> db_messages :=
      AList.update ''m9'' ?msg (db_messages (sv_db sv0)) \<rparr> \<rparr>"
  have rt: "on_send_message sv0 bob_socket (Some ''g2'') (Some ''hi'') ''m9'' ''t9''
      = (?sv', bob_socket, [(ToRoom ''g2'', NewMessage ?msg)])"
    by (simp add: on_send_message_def bob_socket_fields falsy_def trim_hi Let_def bob_fields)
  have stored: "map_of (db_messages (sv_db ?sv')) ''m9'' = Some ?msg"
    by (simp add: AList.update_conv')
  have f: "msg_groupId ?msg = ''g2'' \<and> msg_senderId ?msg = ''u2'' \<and> msg_text ?msg = ''hi''"
    by simp
  have ex: "\<exists>sv' msg.
         on_send_message sv0 bob_socket (Some ''g2'') (Some ''hi'') ''m9'' ''t9''
           = (sv', bob_socket, [(ToRoom ''g2'', NewMessage msg)])
         \<and> map_of (db_messages (sv_db sv')) ''m9'' = Some msg
         \<and> msg_groupId msg = ''g2'' \<and> msg_senderId msg = ''u2'' \<and> msg_text msg = ''hi''"
    apply (rule exI[of _ ?sv'], rule exI[of _ ?msg])
    apply (insert rt stored f)
    apply (intro conjI)
        apply (assumption | (elim conjE, assumption))+
    done
  show ?thesis
    apply (insert db1_lookups(2) nm rest ex)
    apply (intro conjI)
       apply assumption+
    done
qed

section \<open>Message history\<close>

lemma isInt_limit:
  assumes "isInt 1 100 s"
  shows "limit_of (Some s) = parseInt s" and "1 \<le> parseInt s" and "parseInt s \<le> 100"
  using assms by (auto simp: isInt_def limit_of_def)

lemma limit_too_large: "100 < parseInt s \<Longrightarrow> \<not> isInt 1 100 s"
  by (simp add: isInt_def)

lemma last_of_sorted:
  fixes f :: "'a \<Rightarrow> 'b::linorder"
  shows "sorted (map f (drop k (sort_key f xs)))"
    and "set (drop k (sort_key f xs)) \<subseteq> set xs"
    and "\<forall>x \<in> set (drop k (sort_key f xs)). \<forall>y \<in> set (take k (sort_key f xs)). f y \<le> f x"
proof -
  have s: "sorted (map f (sort_key f xs))" by (rule sorted_sort_key)
  show "sorted (map f (drop k (sort_key f xs)))"
    using sorted_wrt_drop[OF s, of k] by (simp add: drop_map)
  show "set (drop k (sort_key f xs)) \<subseteq> set xs"
    using set_drop_subset[of k "sort_key f xs"] by simp
  have "sorted (map f (take k (sort_key f xs)) @ map f (drop k (sort_key f xs)))"
    using s by (metis append_take_drop_id map_append)
  then show "\<forall>x \<in> set (drop k (sort_key f xs)). \<forall>y \<in> set (take k (sort_key f xs)). f y \<le> f x"
    by (auto simp: sorted_append)
qed

lemma rev_take_rev: "rev (take n (rev xs)) = drop (length xs - n) xs"
  by (simp add: take_rev)

text \<open>
  C7. A request with a limit parameter that is no integer between 1 and 100, in
  particular one above 100, is answered with 400. Otherwise a member of the group gets
  status 200 and a page of at most n messages, where n is the requested limit, or 50
  when none is given, so n is at most 100. Among the messages of the group (those created
  strictly before the cursor, when a non-empty cursor is supplied) the page holds the n
  newest by creation timestamp: it is the end of their chronological listing, every
  message left out is no newer than any message on the page, and the page itself is
  in chronological order, oldest first.
\<close>

theorem get_messages_page:
  assumes "db_groups d groupId = Some grp" and "isMember grp (userId user)"
  shows "((case limitParam of None \<Rightarrow> False | Some s \<Rightarrow> \<not> isInt 1 100 s) \<longrightarrow>
            get_messages d user groupId limitParam before = (400, []))
    \<and> ((case limitParam of None \<Rightarrow> False | Some s \<Rightarrow> isIntText s \<and> 100 < parseInt s) \<longrightarrow>
            get_messages d user groupId limitParam before = (400, []))
    \<and> ((case limitParam of None \<Rightarrow> True | Some s \<Rightarrow> isInt 1 100 s) \<longrightarrow>
         (\<exists>ms. get_messages d user groupId limitParam before = (200, ms)
            \<and> (let n = (case limitParam of None \<Rightarrow> 50 | Some s \<Rightarrow> nat (parseInt s));
                    matching = filter (\<lambda>m. msg_groupId m = groupId \<and>
                                  (case before of None \<Rightarrow> True
                                   | Some b \<Rightarrow> b = [] \<or> msg_createdAt m < b))
                                 (map snd (db_messages d));
                    chronological = sort_key msg_createdAt matching
                in 1 \<le> n \<and> n \<le> 100
                   \<and> rev ms = take n (rev chronological)
                   \<and> ms = drop (length chronological - n) chronological
                   \<and> length ms = min n (length matching)
                   \<and> sorted (map msg_createdAt ms)
                   \<and> set ms \<subseteq> set matching
                   \<and> (\<forall>x \<in> set ms.
                         \<forall>y \<in> set (take (length chronological - n) chronological).
                           msg_createdAt y \<le> msg_createdAt x))))"
proof (intro conjI impI)
  assume "case limitParam of None \<Rightarrow> False | Some s \<Rightarrow> \<not> isInt 1 100 s"
  then show "get_messages d user groupId limitParam before = (400, [])"
    by (simp add: get_messages_def split: option.splits)
next
  assume "case limitParam of None \<Rightarrow> False | Some s \<Rightarrow> isIntText s \<and> 100 < parseInt s"
  then show "get_messages d user groupId limitParam before = (400, [])"
    by (auto simp: get_messages_def limit_too_large split: option.splits)
next
  assume v: "case limitParam of None \<Rightarrow> True | Some s \<Rightarrow> isInt 1 100 s"
  let ?n = "case limitParam of None \<Rightarrow> 50 | Some s \<Rightarrow> nat (parseInt s)"
  let ?matching = "filter (\<lambda>m. msg_groupId m = groupId \<and>
                                  (case before of None \<Rightarrow> True
                                   | Some b \<Rightarrow> b = [] \<or> msg_createdAt m < b))
                                 (map snd (db_messages d))"
  let ?chron = "sort_key msg_createdAt ?matching"
  let ?ms = "drop (length ?chron - ?n) ?chron"
  have lim: "nat (limit_of limitParam) = ?n" and n: "1 \<le> ?n" "?n \<le> 100"
    using v by (auto simp: limit_of_def isInt_def split: option.splits)
  have valid: "\<not> (case limitParam of None \<Rightarrow> False | Some s \<Rightarrow> \<not> isInt 1 100 s)"
    using v by (simp split: option.splits)
  have q: "messages_query d groupId before ?n = take ?n (rev ?chron)"
    by (simp add: messages_query_def)
  have run: "get_messages d user groupId limitParam before = (200, ?ms)"
    using valid requireGroupMembership_member[OF assms] lim q
    by (simp add: get_messages_def Let_def rev_take_rev)
  have r: "rev ?ms = take ?n (rev ?chron)"
    using rev_take_rev[of ?n ?chron] by (metis rev_rev_ident)
  have len: "length ?ms = min ?n (length ?matching)"
    by simp
  note p = last_of_sorted[where f = msg_createdAt and k = "length ?chron - ?n"
      and xs = ?matching]
  show "\<exists>ms. get_messages d user groupId limitParam before = (200, ms)
            \<and> (let n = ?n; matching = ?matching; chronological = sort_key msg_createdAt matching
                in 1 \<le> n \<and> n \<le> 100
                   \<and> rev ms = take n (rev chronological)
                   \<and> ms = drop (length chronological - n) chronological
                   \<and> length ms = min n (length matching)
                   \<and> sorted (map msg_createdAt ms)
                   \<and> set ms \<subseteq> set matching
                   \<and> (\<forall>x \<in> set ms.
                         \<forall>y \<in> set (take (length chronological - n) chronological).
                           msg_createdAt y \<le> msg_createdAt x))"
    unfolding Let_def
    apply (rule exI[of _ ?ms])
    apply (insert run n r len p)
    apply (intro conjI)
            apply (assumption | rule refl)+
    done
qed

lemma limit_texts:
  "isInt 1 100 ''2''" "\<not> isInt 1 100 ''101''" "nat (parseInt ''2'') = 2"
  "isIntText ''101''" "100 < parseInt ''101''"
  by code_simp+

lemma db2_group: "db_groups db2 ''g1'' = Some sample_group"
  by (simp add: db2_def db1_lookups)

lemma db2_chronological:
  "sort_key msg_createdAt
     (filter (\<lambda>m. msg_groupId m = ''g1'' \<and> True)
        (map snd (db_messages db2)))
   = [sample_message ''m1'' ''g1'' ''2024-05-01T10:00:00.000Z'',
      sample_message ''m4'' ''g1'' ''2024-05-01T11:00:00.000Z'',
      sample_message ''m3'' ''g1'' ''2024-05-01T12:00:00.000Z'']"
  by code_simp


theorem get_messages_page_witness:
  "db_groups db2 ''g1'' = Some sample_group
   \<and> isMember sample_group (userId alice)
   \<and> isInt 1 100 ''2'' \<and> isIntText ''101'' \<and> 100 < parseInt ''101''
   \<and> get_messages db2 alice ''g1'' (Some ''101'') None = (400, [])
   \<and> get_messages db2 alice ''g1'' (Some ''2'') None =
        (200, [sample_message ''m4'' ''g1'' ''2024-05-01T11:00:00.000Z'',
               sample_message ''m3'' ''g1'' ''2024-05-01T12:00:00.000Z''])"
proof -
  have h: "db_groups db2 ''g1'' = Some sample_group" "isMember sample_group (userId alice)"
    by (simp_all add: db2_group alice_fields sample_member_alice)
  note big = get_messages_page[OF h, where limitParam = "Some ''101''" and before = None]
  have a: "get_messages db2 alice ''g1'' (Some ''101'') None = (400, [])"
    using big[THEN conjunct2, THEN conjunct1] limit_texts(4,5) by simp
  note page = get_messages_page[OF h, where limitParam = "Some ''2''" and before = None,
      THEN conjunct2, THEN conjunct2, unfolded Let_def option.case, THEN mp, OF limit_texts(1)]
  then obtain ms where r: "get_messages db2 alice ''g1'' (Some ''2'') None = (200, ms)"
    and ms: "ms = drop (length (sort_key msg_createdAt
        (filter (\<lambda>m. msg_groupId m = ''g1'' \<and> True)
        (map snd (db_messages db2)))) - nat (parseInt ''2''))
      (sort_key msg_createdAt
        (filter (\<lambda>m. msg_groupId m = ''g1'' \<and> True)
        (map snd (db_messages db2))))"
    by blast
  have "ms = [sample_message ''m4'' ''g1'' ''2024-05-01T11:00:00.000Z'',
               sample_message ''m3'' ''g1'' ''2024-05-01T12:00:00.000Z'']"
    unfolding ms db2_chronological limit_texts(3) by simp
  with r have b: "get_messages db2 alice ''g1'' (Some ''2'') None =
        (200, [sample_message ''m4'' ''g1'' ''2024-05-01T11:00:00.000Z'',
               sample_message ''m3'' ''g1'' ''2024-05-01T12:00:00.000Z''])"
    by simp
  show ?thesis
    apply (insert h limit_texts(1,4,5) a b)
    apply (intro conjI)
          apply assumption+
    done
qed

end
